theory Spec2Isabelle
  imports Main
begin

section \<open>Metadata store: services/metadata-service/src/repository.py\<close>

text \<open>
  The relational tables are lists of rows, in insertion order. The columns are the ones
  the SQL statements of the repository name. The primary keys are the ones the statements
  rely on: \<open>conversation_id\<close> for \<open>conversations\<close>, \<open>message_id\<close> for
  \<open>message_sequences_log\<close> and \<open>(user_id, channel)\<close> for \<open>user_identities\<close> (the
  \<open>ON CONFLICT\<close> target). A metadata bag is stored as its JSON text.
\<close>

datatype repo_error = ConversationNotFoundError | RepositoryError

record conversation_row =
  conv_type :: string
  last_sequence_number :: int
  conv_metadata :: string

record directory_row =
  dir_username :: string
  dir_name :: string
  dir_avatar_url :: string

record metadata_db =
  conversations :: "(string \<times> conversation_row) list"
  conversation_members :: "(string \<times> string) list"
  message_sequences_log :: "(string \<times> string \<times> int) list"
  user_identities :: "((string \<times> string) \<times> string) list"
  users_directory :: "(string \<times> directory_row) list"

definition empty_db :: metadata_db where
  "empty_db = \<lparr>conversations = [], conversation_members = [],
     message_sequences_log = [], user_identities = [], users_directory = []\<rparr>"

text \<open>\<open>find_private_conversation\<close>: the three-way join, \<open>LIMIT 1\<close>.\<close>

definition find_private_conversation :: "string \<Rightarrow> string \<Rightarrow> metadata_db \<Rightarrow> string option" where
  "find_private_conversation member_a member_b db =
     (case [c1. (c1, u1) \<leftarrow> conversation_members db, (c2, u2) \<leftarrow> conversation_members db,
                (c, row) \<leftarrow> conversations db,
                c1 = c2, c = c1, u1 = member_a, u2 = member_b, conv_type row = ''private'']
      of [] \<Rightarrow> None | r # _ \<Rightarrow> Some r)"

text \<open>
  \<open>create_conversation\<close>: a private pair that already has a conversation gets the existing
  identifier (an empty identifier is falsy in \<open>if existing_id\<close>). Otherwise the row is
  inserted with \<open>last_sequence_number = 0\<close>, and one membership row per distinct member.
  An insert under an identifier that is already a key is the database's unique violation,
  which the method re-raises as \<open>RepositoryError\<close> after the rollback.
\<close>

definition create_conversation ::
    "string \<Rightarrow> string \<Rightarrow> string list \<Rightarrow> string \<Rightarrow> metadata_db \<Rightarrow> (repo_error + string) \<times> metadata_db" where
  "create_conversation conversation_id type members metadata db =
     (let existing_id =
            (if type = ''private'' \<and> length members = 2
             then find_private_conversation (members ! 0) (members ! 1) db else None)
      in case existing_id of
           Some e \<Rightarrow>
             if e \<noteq> [] then (Inr e, db)
             else if conversation_id \<in> fst ` set (conversations db) then (Inl RepositoryError, db)
             else (Inr conversation_id,
                   db\<lparr>conversations := conversations db @
                        [(conversation_id, \<lparr>conv_type = type, last_sequence_number = 0, conv_metadata = metadata\<rparr>)],
                      conversation_members := conversation_members db @
                        map (\<lambda>uid. (conversation_id, uid)) (remdups members)\<rparr>)
         | None \<Rightarrow>
             if conversation_id \<in> fst ` set (conversations db) then (Inl RepositoryError, db)
             else (Inr conversation_id,
                   db\<lparr>conversations := conversations db @
                        [(conversation_id, \<lparr>conv_type = type, last_sequence_number = 0, conv_metadata = metadata\<rparr>)],
                      conversation_members := conversation_members db @
                        map (\<lambda>uid. (conversation_id, uid)) (remdups members)\<rparr>))"

definition get_members :: "string \<Rightarrow> metadata_db \<Rightarrow> string list" where
  "get_members conversation_id db = [u. (c, u) \<leftarrow> conversation_members db, c = conversation_id]"

text \<open>
  \<open>get_or_create_sequence\<close>. The \<open>SELECT\<close> on the log is by \<open>message_id\<close> alone;
  \<open>fetchone\<close> takes the first row. \<open>UPDATE ... RETURNING\<close> bumps every row of the
  conversation (one, by the key) and returns the new counters; no returned row raises
  \<open>ConversationNotFoundError\<close>, which leaves the transaction rolled back.
\<close>

definition stored_sequences :: "string \<Rightarrow> metadata_db \<Rightarrow> int list" where
  "stored_sequences message_id db = [s. (m, c, s) \<leftarrow> message_sequences_log db, m = message_id]"

definition bump_sequence :: "string \<Rightarrow> (string \<times> conversation_row) list \<Rightarrow> (string \<times> conversation_row) list" where
  "bump_sequence conversation_id rows =
     map (\<lambda>(k, r). if k = conversation_id
                     then (k, r\<lparr>last_sequence_number := last_sequence_number r + 1\<rparr>) else (k, r)) rows"

definition returning_sequences :: "string \<Rightarrow> (string \<times> conversation_row) list \<Rightarrow> int list" where
  "returning_sequences conversation_id rows =
     [last_sequence_number r. (k, r) \<leftarrow> bump_sequence conversation_id rows, k = conversation_id]"

definition get_or_create_sequence :: "string \<Rightarrow> string \<Rightarrow> metadata_db \<Rightarrow> (repo_error + int) \<times> metadata_db" where
  "get_or_create_sequence conversation_id message_id db =
     (case stored_sequences message_id db of
        existing # _ \<Rightarrow> (Inr existing, db)
      | [] \<Rightarrow>
         (case returning_sequences conversation_id (conversations db) of
            [] \<Rightarrow> (Inl ConversationNotFoundError, db)
          | new_sequence # _ \<Rightarrow>
              (Inr new_sequence,
               db\<lparr>conversations := bump_sequence conversation_id (conversations db),
                  message_sequences_log := message_sequences_log db @
                    [(message_id, conversation_id, new_sequence)]\<rparr>)))"

text \<open>\<open>MetadataService.GetNextSequenceNumber\<close> (main.py): the repository's errors as gRPC status codes.\<close>

datatype grpc_status = NOT_FOUND | INTERNAL | INVALID_ARGUMENT

definition GetNextSequenceNumber :: "string \<Rightarrow> string \<Rightarrow> metadata_db \<Rightarrow> (grpc_status + int) \<times> metadata_db" where
  "GetNextSequenceNumber conversation_id message_id db =
     (case get_or_create_sequence conversation_id message_id db of
        (Inr new_sequence, db') \<Rightarrow> (Inr new_sequence, db')
      | (Inl ConversationNotFoundError, db') \<Rightarrow> (Inl NOT_FOUND, db')
      | (Inl RepositoryError, db') \<Rightarrow> (Inl INTERNAL, db'))"

text \<open>The stored counter of a conversation, when it has a row.\<close>

definition last_sequence :: "string \<Rightarrow> metadata_db \<Rightarrow> int option" where
  "last_sequence conversation_id db =
     map_option last_sequence_number (map_of (conversations db) conversation_id)"

text \<open>
  A state every later example starts from: conversation \<open>c1\<close> between alice and bob, in which
  message \<open>m1\<close> has been sequenced.
\<close>

definition example_db :: metadata_db where
  "example_db =
     snd (get_or_create_sequence ''c1'' ''m1''
       (snd (create_conversation ''c1'' ''private'' [''alice'', ''bob''] ''{}'' empty_db)))"

subsection \<open>Histories of the metadata store\<close>

text \<open>
  The calls that change the conversation tables, as a history applied to the empty store.
  A call that raises leaves the store as it was (the transaction is rolled back).
\<close>

datatype meta_op =
    CreateConversation string string "string list" string
  | NextSequence string string

fun apply_meta_op :: "meta_op \<Rightarrow> metadata_db \<Rightarrow> metadata_db" where
  "apply_meta_op (CreateConversation conversation_id type members metadata) db =
     snd (create_conversation conversation_id type members metadata db)"
| "apply_meta_op (NextSequence conversation_id message_id) db =
     snd (get_or_create_sequence conversation_id message_id db)"

definition run_meta_ops :: "meta_op list \<Rightarrow> metadata_db \<Rightarrow> metadata_db" where
  "run_meta_ops ops db = fold apply_meta_op ops db"

text \<open>The sequence numbers the log records for one conversation, in insertion order.\<close>

definition sequences_of :: "string \<Rightarrow> metadata_db \<Rightarrow> int list" where
  "sequences_of conversation_id db =
     [s. (m, c, s) \<leftarrow> message_sequences_log db, c = conversation_id]"

text \<open>The invariant of the sequencer that every history keeps.\<close>

definition sequencer_inv :: "metadata_db \<Rightarrow> bool" where
  "sequencer_inv db \<longleftrightarrow>
     distinct (map fst (message_sequences_log db))
     \<and> (\<forall>c. map_of (conversations db) c = None \<longrightarrow> sequences_of c db = [])
     \<and> (\<forall>c row. map_of (conversations db) c = Some row \<longrightarrow>
           0 \<le> last_sequence_number row
           \<and> set (sequences_of c db) = {1 .. last_sequence_number row}
           \<and> distinct (sequences_of c db))"

subsection \<open>User identities: repository.py and consumer.py\<close>

record UserCreatedEvent =
  uc_event_id :: string
  uc_user_id :: string
  uc_username :: string
  uc_email :: string
  uc_name :: string
  uc_timestamp :: string

text \<open>
  \<open>get_user_identities\<close>: the rows of the user as a dictionary from channel to external
  id. The dictionary is the list of its items; the key \<open>(user_id, channel)\<close> of the table
  keeps the channels of one user distinct.
\<close>

definition get_user_identities :: "string \<Rightarrow> metadata_db \<Rightarrow> (string \<times> string) list" where
  "get_user_identities user_id db = [(c, x). ((u, c), x) \<leftarrow> user_identities db, u = user_id]"

text \<open>\<open>INSERT ... ON CONFLICT (user_id, channel) DO UPDATE SET external_id = EXCLUDED.external_id\<close>\<close>

definition upsert_identity ::
    "string \<times> string \<Rightarrow> string \<Rightarrow> ((string \<times> string) \<times> string) list \<Rightarrow> ((string \<times> string) \<times> string) list" where
  "upsert_identity k external_id rows =
     (if k \<in> fst ` set rows
      then map (\<lambda>(k', x). if k' = k then (k', external_id) else (k', x)) rows
      else rows @ [(k, external_id)])"

text \<open>\<open>INSERT ... ON CONFLICT (user_id, channel) DO NOTHING\<close>\<close>

definition insert_identity_if_absent ::
    "string \<times> string \<Rightarrow> string \<Rightarrow> ((string \<times> string) \<times> string) list \<Rightarrow> ((string \<times> string) \<times> string) list" where
  "insert_identity_if_absent k external_id rows =
     (if k \<in> fst ` set rows then rows else rows @ [(k, external_id)])"

definition add_identity :: "string \<Rightarrow> string \<Rightarrow> string \<Rightarrow> metadata_db \<Rightarrow> metadata_db" where
  "add_identity user_id channel external_id db =
     db\<lparr>user_identities := upsert_identity (user_id, channel) external_id (user_identities db)\<rparr>"

text \<open>Python's \<open>s.startswith(p)\<close> and, for a string with a colon, \<open>s.split(":")[1]\<close>.\<close>

definition startswith :: "string \<Rightarrow> string \<Rightarrow> bool" where
  "startswith s p = (take (length p) s = p)"

definition split_colon_1 :: "string \<Rightarrow> string" where
  "split_colon_1 s =
     takeWhile (\<lambda>ch. ch \<noteq> CHR '':'') (drop 1 (dropWhile (\<lambda>ch. ch \<noteq> CHR '':'') s))"

text \<open>\<open>INSERT INTO users_directory ... ON CONFLICT (user_id) DO UPDATE SET name, avatar_url\<close>\<close>

definition upsert_directory :: "UserCreatedEvent \<Rightarrow> (string \<times> directory_row) list \<Rightarrow> (string \<times> directory_row) list" where
  "upsert_directory event rows =
     (let avatar = ''https://api.dicebear.com/7.x/initials/svg?seed='' @ uc_username event in
      if uc_user_id event \<in> fst ` set rows
      then map (\<lambda>(k, r). if k = uc_user_id event
                          then (k, r\<lparr>dir_name := uc_name event, dir_avatar_url := avatar\<rparr>) else (k, r)) rows
      else rows @ [(uc_user_id event,
                    \<lparr>dir_username = uc_username event, dir_name = uc_name event, dir_avatar_url = avatar\<rparr>)])"

text \<open>
  \<open>process_user_created\<close>, for an event that deserialises and a transaction that commits
  (on a database error the handler logs and the tables stay as they were): the directory
  row, the \<open>delivery\<close> binding of the user to its own id, and the binding that a
  \<open>whatsapp:\<close> or \<open>instagram:\<close> username carries.
\<close>

definition process_user_created :: "UserCreatedEvent \<Rightarrow> metadata_db \<Rightarrow> metadata_db" where
  "process_user_created event db =
     (let ids1 = insert_identity_if_absent (uc_user_id event, ''delivery'') (uc_user_id event)
                   (user_identities db);
          ids2 = (if startswith (uc_username event) ''whatsapp:''
                  then insert_identity_if_absent (uc_user_id event, ''whatsapp'')
                         (split_colon_1 (uc_username event)) ids1
                  else if startswith (uc_username event) ''instagram:''
                  then insert_identity_if_absent (uc_user_id event, ''instagram'')
                         (split_colon_1 (uc_username event)) ids1
                  else ids1)
      in db\<lparr>users_directory := upsert_directory event (users_directory db),
            user_identities := ids2\<rparr>)"

datatype identity_op =
    UserCreated UserCreatedEvent
  | AddIdentity string string string

fun apply_identity_op :: "identity_op \<Rightarrow> metadata_db \<Rightarrow> metadata_db" where
  "apply_identity_op (UserCreated event) db = process_user_created event db"
| "apply_identity_op (AddIdentity user_id channel external_id) db =
     add_identity user_id channel external_id db"

definition run_identity_ops :: "identity_op list \<Rightarrow> metadata_db \<Rightarrow> metadata_db" where
  "run_identity_ops ops db = fold apply_identity_op ops db"

text \<open>The channel an \<open>AddIdentity\<close> call binds; a user-created event binds no channel by such a call.\<close>

fun binds_delivery :: "identity_op \<Rightarrow> bool" where
  "binds_delivery (UserCreated event) = False"
| "binds_delivery (AddIdentity user_id channel external_id) = (channel = ''delivery'')"

section \<open>Events and their protobuf form: common/schemas/events.py, common/utils/proto_converter.py\<close>

text \<open>
  The pydantic models are records with the source's field names; an \<open>Optional\<close> field is an
  \<open>option\<close>. The fields of a protobuf message carry the prefix \<open>pb_\<close>, and the fields
  that a delivery job shares with its payload the prefix \<open>job_\<close>. A \<open>Dict[str, Any]\<close> is
  the list of its items, with values of any type \<open>'v\<close>. The generated protobuf classes are
  not part of the sources: their string and integer fields are taken as \<open>string\<close> and
  \<open>int\<close>. A \<open>string\<close> stands for the list of the code points of a Python \<open>str\<close>.

  \<open>json.dumps\<close> and \<open>json.loads\<close> are parameters of the converter. \<open>json.loads\<close> raises
  on a text that is not JSON; its value is assigned to the field \<open>attachments\<close>, and the
  pydantic model raises unless the value is \<open>null\<close> or an object. So the parameter
  \<open>json_loads\<close> answers an error, or \<open>None\<close> for \<open>null\<close>, or the dictionary.
\<close>

datatype conv_error = JSONDecodeError | ValidationError

text \<open>Python values, for the examples of a \<open>Dict[str, Any]\<close>.\<close>

datatype pyvalue = PyInt int | PyStr string | PyList "pyvalue list" | PyTuple "pyvalue list"

record 'v MessageSentEvent =
  message_id :: string
  conversation_id :: string
  sender_id :: string
  timestamp :: string
  message_type :: string
  content :: string
  attachments :: "(string \<times> 'v) list option"
  status :: string
  sequence_number :: "int option"
  target_channels :: "string list"

record MessageSentEventProto =
  pb_message_id :: string
  pb_conversation_id :: string
  pb_sender_id :: string
  pb_timestamp :: string
  pb_message_type :: string
  pb_content :: string
  pb_attachments_json :: string
  pb_status :: string
  pb_sequence_number :: int
  pb_target_channels :: "string list"

definition message_sent_to_proto ::
    "((string \<times> 'v) list \<Rightarrow> string) \<Rightarrow> 'v MessageSentEvent \<Rightarrow> MessageSentEventProto" where
  "message_sent_to_proto json_dumps event =
     \<lparr>pb_message_id = message_id event,
      pb_conversation_id = conversation_id event,
      pb_sender_id = sender_id event,
      pb_timestamp = timestamp event,
      pb_message_type = message_type event,
      pb_content = content event,
      pb_attachments_json =
        (case attachments event of
           Some d \<Rightarrow> if d \<noteq> [] then json_dumps d else ''''
         | None \<Rightarrow> ''''),
      pb_status = status event,
      pb_sequence_number = (case sequence_number event of Some n \<Rightarrow> n | None \<Rightarrow> 0),
      pb_target_channels = target_channels event\<rparr>"

definition message_sent_from_proto ::
    "(string \<Rightarrow> conv_error + (string \<times> 'v) list option) \<Rightarrow> MessageSentEventProto \<Rightarrow>
     conv_error + 'v MessageSentEvent" where
  "message_sent_from_proto json_loads proto =
     (case (if pb_attachments_json proto \<noteq> '''' then json_loads (pb_attachments_json proto)
            else Inr None) of
        Inl e \<Rightarrow> Inl e
      | Inr loaded \<Rightarrow>
          Inr \<lparr>message_id = pb_message_id proto,
               conversation_id = pb_conversation_id proto,
               sender_id = pb_sender_id proto,
               timestamp = pb_timestamp proto,
               message_type = pb_message_type proto,
               content = pb_content proto,
               attachments = loaded,
               status = pb_status proto,
               sequence_number = (if pb_sequence_number proto > 0 then Some (pb_sequence_number proto) else None),
               target_channels = pb_target_channels proto\<rparr>)"

text \<open>An event with one attachment entry \<open>a\<close>, for the examples.\<close>

definition example_attachment_event :: "pyvalue \<Rightarrow> pyvalue MessageSentEvent" where
  "example_attachment_event v =
     \<lparr>message_id = ''m1'', conversation_id = ''c1'', sender_id = ''alice'', timestamp = ''t'',
      message_type = ''file'', content = ''hi'', attachments = Some [(''a'', v)],
      status = ''SENT'', sequence_number = Some 1, target_channels = [''delivery'']\<rparr>"

record 'v DeliveryJobEvent =
  job_id :: string
  job_message_id :: string
  job_conversation_id :: string
  recipient_id :: string
  channel :: string
  payload :: "'v MessageSentEvent"

record DeliveryJobEventProto =
  pb_job_id :: string
  pb_job_message_id :: string
  pb_job_conversation_id :: string
  pb_recipient_id :: string
  pb_channel :: string
  pb_payload :: MessageSentEventProto

definition delivery_job_from_proto ::
    "(string \<Rightarrow> conv_error + (string \<times> 'v) list option) \<Rightarrow> DeliveryJobEventProto \<Rightarrow>
     conv_error + 'v DeliveryJobEvent" where
  "delivery_job_from_proto json_loads proto =
     (case message_sent_from_proto json_loads (pb_payload proto) of
        Inl e \<Rightarrow> Inl e
      | Inr payload_pydantic \<Rightarrow>
          Inr \<lparr>job_id = pb_job_id proto,
               job_message_id = pb_job_message_id proto,
               job_conversation_id = pb_job_conversation_id proto,
               recipient_id = pb_recipient_id proto,
               channel = pb_channel proto,
               payload = payload_pydantic\<rparr>)"

record 'v PushNotificationEvent =
  notification_id :: string
  push_user_id :: string
  title :: string
  body :: string
  data :: "(string \<times> 'v) list option"
  push_timestamp :: string

record PushNotificationEventProto =
  pb_notification_id :: string
  pb_push_user_id :: string
  pb_title :: string
  pb_body :: string
  pb_data_json :: string
  pb_push_timestamp :: string

definition push_notification_to_proto ::
    "((string \<times> 'v) list \<Rightarrow> string) \<Rightarrow> 'v PushNotificationEvent \<Rightarrow> PushNotificationEventProto" where
  "push_notification_to_proto json_dumps event =
     \<lparr>pb_notification_id = notification_id event,
      pb_push_user_id = push_user_id event,
      pb_title = title event,
      pb_body = body event,
      pb_data_json =
        (case data event of Some d \<Rightarrow> if d \<noteq> [] then json_dumps d else '''' | None \<Rightarrow> ''''),
      pb_push_timestamp = push_timestamp event\<rparr>"

record MessageStatusEventProto =
  st_event_id :: string
  st_message_id :: string
  st_sequence_number :: int
  st_conversation_id :: string
  st_user_id :: string
  st_sender_id :: string
  st_status :: string
  st_timestamp :: string

section \<open>Request API: services/api-service/src/routers/messages.py\<close>

record 'v CreateMessageRequest =
  idempotency_key :: string
  req_conversation_id :: string
  req_message_type :: string
  req_content :: string
  req_attachments :: "(string \<times> 'v) list option"
  req_metadata :: "(string \<times> 'v) list option"
  req_target_channels :: "string list option"

text \<open>
  \<open>send_message\<close>: the event that the route builds and publishes to the submit topic; the
  caller's id and the clock are arguments. An absent or empty \<open>target_channels\<close> becomes
  \<open>["delivery"]\<close> here.
\<close>

definition send_message_event :: "'v CreateMessageRequest \<Rightarrow> string \<Rightarrow> string \<Rightarrow> 'v MessageSentEvent" where
  "send_message_event request user_id now =
     (let channels = (case req_target_channels request of
                        Some cs \<Rightarrow> if cs \<noteq> [] then cs else [''delivery'']
                      | None \<Rightarrow> [''delivery''])
      in \<lparr>message_id = idempotency_key request,
          conversation_id = req_conversation_id request,
          sender_id = user_id,
          timestamp = now,
          message_type = req_message_type request,
          content = req_content request,
          attachments = req_attachments request,
          status = ''SENT'',
          sequence_number = None,
          target_channels = channels\<rparr>)"

section \<open>Fan-out dispatcher: services/fanout-service/src/main.py\<close>

text \<open>
  The topic of each channel, with the defaults of the environment variables.
\<close>

definition CHANNEL_TOPIC_MAP :: "(string \<times> string) list" where
  "CHANNEL_TOPIC_MAP =
     [(''delivery'', ''connector.delivery.outbound.v1''),
      (''whatsapp'', ''connector.whatsapp.outbound.v1''),
      (''instagram'', ''connector.instagram.outbound.v1'')]"

definition NAMESPACE_DNS :: string where
  "NAMESPACE_DNS = ''6ba7b810-9dad-11d1-80b4-00c04fd430c8''"

text \<open>
  What the dispatcher takes from outside: the order in which Python iterates the set built
  from a list (\<open>set_iter\<close>), the answer of the metadata service for the identities of a
  member (\<open>grpc.RpcError\<close> or a dictionary), and the sends on which the producer raises.
  \<open>uuid.uuid5\<close>, printed as a string, is an argument of its own.
\<close>

datatype rpc_error = RpcError

type_synonym sent_job = "string \<times> string \<times> DeliveryJobEventProto"

record fanout_env =
  set_iter :: "string list \<Rightarrow> string list"
  identities_of :: "string \<Rightarrow> rpc_error + (string \<times> string) list"
  send_raises :: "sent_job \<Rightarrow> bool"

definition valid_set_iter :: "(string list \<Rightarrow> string list) \<Rightarrow> bool" where
  "valid_set_iter f \<longleftrightarrow> (\<forall>xs. set (f xs) = set xs \<and> distinct (f xs))"

definition resolve_target_channels ::
    "(string list \<Rightarrow> string list) \<Rightarrow> string list \<Rightarrow> (string \<times> string) list \<Rightarrow> (string \<times> string) list" where
  "resolve_target_channels iter requested_channels available_identities =
     (let target_set = (if ''all'' \<in> set requested_channels
                        then iter (map fst available_identities)
                        else iter requested_channels)
      in List.map_filter
           (\<lambda>c. case map_of available_identities c of Some x \<Rightarrow> Some (c, x) | None \<Rightarrow> None)
           target_set)"

definition make_job ::
    "(string \<Rightarrow> string \<Rightarrow> string) \<Rightarrow> MessageSentEventProto \<Rightarrow> string \<Rightarrow> string \<Rightarrow> DeliveryJobEventProto" where
  "make_job uuid5 proto_event member_id c =
     \<lparr>pb_job_id = uuid5 NAMESPACE_DNS (pb_message_id proto_event @ '':'' @ member_id @ '':'' @ c),
      pb_job_message_id = pb_message_id proto_event,
      pb_job_conversation_id = pb_conversation_id proto_event,
      pb_recipient_id = member_id,
      pb_channel = c,
      pb_payload = proto_event\<rparr>"

text \<open>
  The loop over the routes of one member. The result is the jobs sent so far, and whether
  the loop ended without an exception.
\<close>

fun dispatch_routes ::
    "(string \<Rightarrow> string \<Rightarrow> string) \<Rightarrow> fanout_env \<Rightarrow> MessageSentEventProto \<Rightarrow> string \<Rightarrow>
     (string \<times> string) list \<Rightarrow> sent_job list \<Rightarrow> bool \<times> sent_job list" where
  "dispatch_routes uuid5 env proto_event member_id [] sent = (True, sent)"
| "dispatch_routes uuid5 env proto_event member_id ((c, external_id) # routes) sent =
     (case map_of CHANNEL_TOPIC_MAP c of
        None \<Rightarrow> dispatch_routes uuid5 env proto_event member_id routes sent
      | Some target_topic \<Rightarrow>
          if target_topic = [] then dispatch_routes uuid5 env proto_event member_id routes sent
          else if send_raises env (target_topic, member_id, make_job uuid5 proto_event member_id c)
          then (False, sent)
          else dispatch_routes uuid5 env proto_event member_id routes
                 (sent @ [(target_topic, member_id, make_job uuid5 proto_event member_id c)]))"

text \<open>The loop over the members.\<close>

fun dispatch_members ::
    "(string \<Rightarrow> string \<Rightarrow> string) \<Rightarrow> fanout_env \<Rightarrow> MessageSentEventProto \<Rightarrow>
     string list \<Rightarrow> sent_job list \<Rightarrow> bool \<times> sent_job list" where
  "dispatch_members uuid5 env proto_event [] sent = (True, sent)"
| "dispatch_members uuid5 env proto_event (member_id # members) sent =
     (if member_id = pb_sender_id proto_event
      then dispatch_members uuid5 env proto_event members sent
      else case identities_of env member_id of
             Inl e \<Rightarrow> (False, sent)
           | Inr identities \<Rightarrow>
               if identities = [] then dispatch_members uuid5 env proto_event members sent
               else let routes = resolve_target_channels (set_iter env)
                                   (pb_target_channels proto_event) identities
                    in if routes = [] then dispatch_members uuid5 env proto_event members sent
                       else (case dispatch_routes uuid5 env proto_event member_id routes sent of
                               (False, sent') \<Rightarrow> (False, sent')
                             | (True, sent') \<Rightarrow> dispatch_members uuid5 env proto_event members sent'))"

text \<open>
  The body of \<open>run\<close> for one persisted event, given the answer of the metadata service for
  the members of the conversation. Every exception ends the body in the handler that logs
  it; the jobs sent before it stay sent.
\<close>

definition fanout_event ::
    "(string \<Rightarrow> string \<Rightarrow> string) \<Rightarrow> fanout_env \<Rightarrow> rpc_error + string list \<Rightarrow>
     MessageSentEventProto \<Rightarrow> bool \<times> sent_job list" where
  "fanout_event uuid5 env members_result proto_event =
     (case members_result of
        Inl e \<Rightarrow> (False, [])
      | Inr members \<Rightarrow>
          if members = [] then (True, [])
          else dispatch_members uuid5 env proto_event members [])"

text \<open>The jobs of one recipient among the jobs sent.\<close>

definition jobs_for :: "string \<Rightarrow> sent_job list \<Rightarrow> DeliveryJobEventProto list" where
  "jobs_for member_id sent = [j. (t, k, j) \<leftarrow> sent, pb_recipient_id j = member_id]"

text \<open>An environment without failures, for the examples: bob has linked a whatsapp number.\<close>

definition example_env :: fanout_env where
  "example_env =
     \<lparr>set_iter = remdups,
      identities_of = (\<lambda>u. if u = ''bob''
                            then Inr [(''delivery'', ''bob''), (''whatsapp'', ''+5511999'')]
                            else Inr [(''delivery'', u)]),
      send_raises = (\<lambda>j. False)\<rparr>"

definition example_event :: "string list \<Rightarrow> MessageSentEventProto" where
  "example_event channels =
     \<lparr>pb_message_id = ''m1'', pb_conversation_id = ''c1'', pb_sender_id = ''alice'',
      pb_timestamp = ''t'', pb_message_type = ''text'', pb_content = ''hi'',
      pb_attachments_json = '''', pb_status = ''SENT'', pb_sequence_number = 1,
      pb_target_channels = channels\<rparr>"

text \<open>A stand-in for \<open>uuid5\<close> in the examples: any function of the namespace and the name.\<close>

definition example_uuid5 :: "string \<Rightarrow> string \<Rightarrow> string" where
  "example_uuid5 ns n = ns @ ''/'' @ n"

text \<open>
  What one member contributes when the requested list is \<open>["delivery"]\<close> and nothing
  fails: the job on channel \<open>delivery\<close> if the member is not the sender and has that identity.
\<close>

definition delivery_job_of ::
    "(string \<Rightarrow> string \<Rightarrow> string) \<Rightarrow> fanout_env \<Rightarrow> MessageSentEventProto \<Rightarrow> string \<Rightarrow> sent_job list" where
  "delivery_job_of uuid5 env ev m =
     (if m = pb_sender_id ev then []
      else case identities_of env m of
             Inl e \<Rightarrow> []
           | Inr ids \<Rightarrow>
               (case map_of ids ''delivery'' of
                  None \<Rightarrow> []
                | Some x \<Rightarrow> [(''connector.delivery.outbound.v1'', m, make_job uuid5 ev m ''delivery'')]))"

section \<open>Message log: common/database/scylla_client.py\<close>

text \<open>
  A row of \<open>chat_history.messages\<close>, under its key \<open>(conversation_id, sequence_number)\<close>.
  Every other column can be null: an \<open>INSERT\<close> writes all of them, an \<open>UPDATE\<close> writes the
  ones it names and makes the row when the key is new. The conversion of an id to a UUID
  (\<open>_to_uuid\<close>) is an argument of the workers.
\<close>

record message_row =
  row_message_id :: "string option"
  row_sender_id :: "string option"
  row_content :: "string option"
  row_message_type :: "string option"
  row_status :: "string option"
  row_timestamp :: "string option"
  row_attachments :: "string option"

type_synonym messages_table = "string \<times> int \<Rightarrow> message_row option"

definition null_row :: message_row where
  "null_row = \<lparr>row_message_id = None, row_sender_id = None, row_content = None,
     row_message_type = None, row_status = None, row_timestamp = None, row_attachments = None\<rparr>"

text \<open>\<open>save_message\<close> for a protobuf event: the \<open>INSERT\<close>, with an empty \<open>attachments_json\<close> stored as null.\<close>

definition save_message ::
    "(string \<Rightarrow> string) \<Rightarrow> MessageSentEventProto \<Rightarrow> int \<Rightarrow> messages_table \<Rightarrow> messages_table" where
  "save_message to_uuid event_obj seq tbl =
     tbl((to_uuid (pb_conversation_id event_obj), seq) \<mapsto>
       \<lparr>row_message_id = Some (to_uuid (pb_message_id event_obj)),
        row_sender_id = Some (to_uuid (pb_sender_id event_obj)),
        row_content = Some (pb_content event_obj),
        row_message_type = Some (pb_message_type event_obj),
        row_status = Some (pb_status event_obj),
        row_timestamp = Some (pb_timestamp event_obj),
        row_attachments = (if pb_attachments_json event_obj \<noteq> '''' then Some (pb_attachments_json event_obj) else None)\<rparr>)"

text \<open>\<open>UPDATE chat_history.messages SET status = %s WHERE conversation_id = %s AND sequence_number = %s\<close>\<close>

definition update_status :: "string \<times> int \<Rightarrow> string \<Rightarrow> messages_table \<Rightarrow> messages_table" where
  "update_status k new_status tbl =
     tbl(k \<mapsto> (case tbl k of Some r \<Rightarrow> r\<lparr>row_status := Some new_status\<rparr>
                           | None \<Rightarrow> null_row\<lparr>row_status := Some new_status\<rparr>))"

section \<open>Consumer loops: common/utils/kafka_client.py\<close>

text \<open>
  Both loops take the messages of a partition in order; the \<open>n\<close>-th has offset \<open>n\<close>. The
  body returns whether it raised, and the new world. \<open>commit\<close> records the offset.

  \<open>ConsumerWrapper.consume\<close> is a generator: the body of the caller's \<open>for\<close> runs at the
  \<open>yield\<close>, and the commit is the next statement of the generator, which runs when the
  \<open>for\<close> asks for the next message. An exception of the body is raised in the caller, not
  in the generator: it ends the \<open>for\<close>. A commit is taken to succeed (the generator logs
  an exception of \<open>commit\<close> and goes on).
\<close>

fun consume ::
    "(nat \<Rightarrow> 'm \<Rightarrow> 'w \<Rightarrow> bool \<times> 'w) \<Rightarrow> (nat \<Rightarrow> 'w \<Rightarrow> 'w) \<Rightarrow> nat \<Rightarrow> 'm list \<Rightarrow> 'w \<Rightarrow> 'w" where
  "consume for_body commit offset [] w = w"
| "consume for_body commit offset (m # ms) w =
     (case for_body offset m w of
        (True, w') \<Rightarrow> w'
      | (False, w') \<Rightarrow> consume for_body commit (Suc offset) ms (commit offset w'))"

text \<open>
  \<open>AsyncConsumerWrapper.consume\<close>: the callback and the commit are inside one \<open>try\<close>; an
  exception of the callback is logged, the commit is skipped, and the loop goes on.
\<close>

fun async_consume ::
    "(nat \<Rightarrow> 'm \<Rightarrow> 'w \<Rightarrow> bool \<times> 'w) \<Rightarrow> (nat \<Rightarrow> 'w \<Rightarrow> 'w) \<Rightarrow> nat \<Rightarrow> 'm list \<Rightarrow> 'w \<Rightarrow> 'w" where
  "async_consume callback commit offset [] w = w"
| "async_consume callback commit offset (m # ms) w =
     (case callback offset m w of
        (True, w') \<Rightarrow> async_consume callback commit (Suc offset) ms w'
      | (False, w') \<Rightarrow> async_consume callback commit (Suc offset) ms (commit offset w'))"

section \<open>Ingestion worker: services/ingestion-service/src/main.py\<close>

text \<open>
  The world of the worker: the metadata store behind the gRPC client, the message log, the
  dedup cache (\<open>deque(maxlen=10000)\<close>), the records sent to the producer and the offsets
  committed. The environment says which outside call raises at which offset: the RPC
  transport, the write to the log (the store, or a timestamp that is not ISO), the send.
  A consumed value is \<open>None\<close> when its bytes do not parse.
\<close>

record ingestion_world =
  iw_db :: metadata_db
  iw_messages :: messages_table
  iw_cache :: "string list"
  iw_produced :: "(string \<times> string \<times> MessageSentEventProto) list"
  iw_committed :: "nat list"

record ingestion_env =
  ie_to_uuid :: "string \<Rightarrow> string"
  ie_topic_produce :: string
  ie_rpc_raises :: "nat \<Rightarrow> bool"
  ie_save_raises :: "nat \<Rightarrow> bool"
  ie_send_raises :: "nat \<Rightarrow> bool"

definition cache_append :: "string \<Rightarrow> string list \<Rightarrow> string list" where
  "cache_append x xs = (if length xs \<ge> 10000 then tl xs @ [x] else xs @ [x])"

text \<open>
  \<open>metadata_client.get_next_sequence\<close>: the stub raises \<open>grpc.RpcError\<close> when the transport
  fails and when the service answers with a status other than OK.
\<close>

definition get_next_sequence ::
    "bool \<Rightarrow> string \<Rightarrow> string \<Rightarrow> metadata_db \<Rightarrow> (rpc_error + int) \<times> metadata_db" where
  "get_next_sequence transport_fails conv msg db =
     (if transport_fails then (Inl RpcError, db)
      else case GetNextSequenceNumber conv msg db of
             (Inl code, db') \<Rightarrow> (Inl RpcError, db')
           | (Inr seq, db') \<Rightarrow> (Inr seq, db'))"

text \<open>
  The body of the \<open>for\<close> in \<open>run\<close>. The whole body is inside \<open>try ... except Exception\<close>,
  which logs: the body never raises.
\<close>

definition ingestion_body ::
    "ingestion_env \<Rightarrow> nat \<Rightarrow> MessageSentEventProto option \<Rightarrow> ingestion_world \<Rightarrow> bool \<times> ingestion_world" where
  "ingestion_body env offset msg w =
     (case msg of
        None \<Rightarrow> (False, w)
      | Some event_proto \<Rightarrow>
          if pb_message_id event_proto \<in> set (iw_cache w) then (False, w)
          else
            (case get_next_sequence (ie_rpc_raises env offset)
                    (pb_conversation_id event_proto) (pb_message_id event_proto) (iw_db w) of
               (Inl e, db') \<Rightarrow> (False, w\<lparr>iw_db := db'\<rparr>)
             | (Inr seq_num, db') \<Rightarrow>
                 if ie_save_raises env offset then (False, w\<lparr>iw_db := db'\<rparr>)
                 else
                   (let w1 = w\<lparr>iw_db := db',
                               iw_messages := save_message (ie_to_uuid env) event_proto seq_num (iw_messages w),
                               iw_cache := cache_append (pb_message_id event_proto) (iw_cache w)\<rparr>
                    in if ie_send_raises env offset then (False, w1)
                       else (False,
                             w1\<lparr>iw_produced := iw_produced w1 @
                                  [(ie_topic_produce env, pb_conversation_id event_proto,
                                    event_proto\<lparr>pb_sequence_number := seq_num\<rparr>)]\<rparr>))))"

definition ingestion_commit :: "nat \<Rightarrow> ingestion_world \<Rightarrow> ingestion_world" where
  "ingestion_commit offset w = w\<lparr>iw_committed := iw_committed w @ [offset]\<rparr>"

definition ingestion_run ::
    "ingestion_env \<Rightarrow> MessageSentEventProto option list \<Rightarrow> ingestion_world \<Rightarrow> ingestion_world" where
  "ingestion_run env msgs w = consume (ingestion_body env) ingestion_commit 0 msgs w"

text \<open>Whether some step of the processing of a message (one that the cache does not hold) raises.\<close>

definition ingestion_step_fails ::
    "ingestion_env \<Rightarrow> nat \<Rightarrow> MessageSentEventProto \<Rightarrow> ingestion_world \<Rightarrow> bool" where
  "ingestion_step_fails env offset event_proto w =
     (case get_next_sequence (ie_rpc_raises env offset)
             (pb_conversation_id event_proto) (pb_message_id event_proto) (iw_db w) of
        (Inl e, db') \<Rightarrow> True
      | (Inr seq_num, db') \<Rightarrow> ie_save_raises env offset \<or> ie_send_raises env offset)"

definition empty_ingestion_world :: ingestion_world where
  "empty_ingestion_world =
     \<lparr>iw_db = empty_db, iw_messages = Map.empty, iw_cache = [], iw_produced = [], iw_committed = []\<rparr>"

definition reliable_ingestion_env :: ingestion_env where
  "reliable_ingestion_env =
     \<lparr>ie_to_uuid = (\<lambda>s. s), ie_topic_produce = ''chat.message.persisted.v1'',
      ie_rpc_raises = (\<lambda>n. False), ie_save_raises = (\<lambda>n. False), ie_send_raises = (\<lambda>n. False)\<rparr>"

section \<open>Delivery worker: services/delivery-worker/src/main.py\<close>

text \<open>
  A row of \<open>chat_history.user_inbox\<close>; \<open>created_at\<close> is the store's clock at the insert.
\<close>

record inbox_row =
  inbox_user_id :: string
  inbox_created_at :: string
  inbox_conversation_id :: string
  inbox_message_id :: string
  inbox_sequence_number :: int
  inbox_content :: string
  inbox_sender_id :: string
  inbox_status :: string

text \<open>
  The world of the worker: the inbox table, the messages published on the pub/sub
  channels, the records sent to the push topic and the offsets committed. The environment
  gives, per offset, the failures of the three outside calls, the subscriber count that
  \<open>PUBLISH\<close> returns, \<open>uuid4()\<close> and the clock.
\<close>

record delivery_world =
  dw_inbox :: "inbox_row list"
  dw_pubsub :: "(string \<times> string) list"
  dw_push :: "(string \<times> string \<times> PushNotificationEventProto) list"
  dw_committed :: "nat list"

record 'v delivery_env =
  de_json_loads :: "string \<Rightarrow> conv_error + (string \<times> 'v) list option"
  de_json_dumps :: "(string \<times> string) list \<Rightarrow> string"
  de_model_dump_json :: "'v MessageSentEvent \<Rightarrow> string"
  de_to_uuid :: "string \<Rightarrow> string"
  de_inbox_raises :: "nat \<Rightarrow> bool"
  de_publish :: "nat \<Rightarrow> rpc_error + int"
  de_push_raises :: "nat \<Rightarrow> bool"
  de_uuid4 :: "nat \<Rightarrow> string"
  de_now :: "nat \<Rightarrow> string"

definition TOPIC_PUSH :: string where
  "TOPIC_PUSH = ''chat.message.notification.v1''"

text \<open>The push notification that the worker builds for an offline recipient.\<close>

definition push_event_of ::
    "'v delivery_env \<Rightarrow> nat \<Rightarrow> 'v DeliveryJobEvent \<Rightarrow> string PushNotificationEvent" where
  "push_event_of env offset event =
     \<lparr>notification_id = de_uuid4 env offset,
      push_user_id = recipient_id event,
      title = ''Nova mensagem de '' @ sender_id (payload event),
      body = (if content (payload event) \<noteq> '''' then take 100 (content (payload event))
              else ''Novo arquivo''),
      data = Some [(''conversation_id'', job_conversation_id event),
                   (''message_id'', job_message_id event)],
      push_timestamp = de_now env offset\<rparr>"

text \<open>
  \<open>process_delivery_job\<close>. Every exception reaches the outer handler, which logs it and
  raises it again: the result says whether the callback raised. The conversion of the job
  comes first; when it raises, nothing has been written.
\<close>

definition process_delivery_job ::
    "'v delivery_env \<Rightarrow> nat \<Rightarrow> DeliveryJobEventProto option \<Rightarrow> delivery_world \<Rightarrow> bool \<times> delivery_world" where
  "process_delivery_job env offset msg w =
     (case msg of
        None \<Rightarrow> (True, w)
      | Some proto \<Rightarrow>
          (case delivery_job_from_proto (de_json_loads env) proto of
             Inl conv \<Rightarrow> (True, w)
           | Inr event \<Rightarrow>
               (let seq_num = (case sequence_number (payload event) of Some n \<Rightarrow> n | None \<Rightarrow> - 1)
                in if de_inbox_raises env offset then (True, w)
                   else
                     (let w1 = w\<lparr>dw_inbox := dw_inbox w @
                                  [\<lparr>inbox_user_id = de_to_uuid env (recipient_id event),
                                    inbox_created_at = de_now env offset,
                                    inbox_conversation_id = de_to_uuid env (job_conversation_id event),
                                    inbox_message_id = de_to_uuid env (job_message_id event),
                                    inbox_sequence_number = seq_num,
                                    inbox_content = content (payload event),
                                    inbox_sender_id = de_to_uuid env (sender_id (payload event)),
                                    inbox_status = ''PENDING''\<rparr>]\<rparr>
                      in case de_publish env offset of
                           Inl e \<Rightarrow> (True, w1)
                         | Inr subscribers_count \<Rightarrow>
                             (let w2 = w1\<lparr>dw_pubsub := dw_pubsub w1 @
                                          [(''user:'' @ recipient_id event,
                                            de_model_dump_json env (payload event))]\<rparr>
                              in if subscribers_count > 0 then (False, w2)
                                 else if de_push_raises env offset then (True, w2)
                                 else (False,
                                       w2\<lparr>dw_push := dw_push w2 @
                                            [(TOPIC_PUSH, recipient_id event,
                                              push_notification_to_proto (de_json_dumps env)
                                                (push_event_of env offset event))]\<rparr>))))))"

text \<open>
  Whether the callback raises for a job at an offset: its bytes do not parse, its
  conversion raises, or one of the three outside calls that it reaches raises.
\<close>

definition delivery_job_raises :: "'v delivery_env \<Rightarrow> nat \<Rightarrow> DeliveryJobEventProto option \<Rightarrow> bool" where
  "delivery_job_raises env offset msg =
     (case msg of
        None \<Rightarrow> True
      | Some proto \<Rightarrow>
          (case delivery_job_from_proto (de_json_loads env) proto of
             Inl conv \<Rightarrow> True
           | Inr event \<Rightarrow>
               de_inbox_raises env offset
               \<or> (case de_publish env offset of
                     Inl e \<Rightarrow> True
                   | Inr subscribers_count \<Rightarrow> subscribers_count \<le> 0 \<and> de_push_raises env offset)))"

definition delivery_commit :: "nat \<Rightarrow> delivery_world \<Rightarrow> delivery_world" where
  "delivery_commit offset w = w\<lparr>dw_committed := dw_committed w @ [offset]\<rparr>"

definition delivery_run ::
    "'v delivery_env \<Rightarrow> nat \<Rightarrow> DeliveryJobEventProto option list \<Rightarrow> delivery_world \<Rightarrow> delivery_world" where
  "delivery_run env offset msgs w = async_consume (process_delivery_job env) delivery_commit offset msgs w"

definition empty_delivery_world :: delivery_world where
  "empty_delivery_world = \<lparr>dw_inbox = [], dw_pubsub = [], dw_push = [], dw_committed = []\<rparr>"

text \<open>
  An environment for the examples: the jobs carry no attachments, so \<open>json.loads\<close> is
  not reached; the inbox write and the push publish do not raise, and \<open>PUBLISH\<close> finds
  \<open>subs\<close> subscribers, or raises when \<open>subs\<close> is \<open>None\<close>.
\<close>

definition example_delivery_env :: "int option \<Rightarrow> string delivery_env" where
  "example_delivery_env subs =
     \<lparr>de_json_loads = (\<lambda>s. Inl JSONDecodeError),
      de_json_dumps = (\<lambda>d. concat (map (\<lambda>(k, v). k @ ''='' @ v @ '';'') d)),
      de_model_dump_json = (\<lambda>e. message_id e),
      de_to_uuid = (\<lambda>s. s),
      de_inbox_raises = (\<lambda>n. False),
      de_publish = (\<lambda>n. case subs of Some c \<Rightarrow> Inr c | None \<Rightarrow> Inl RpcError),
      de_push_raises = (\<lambda>n. False),
      de_uuid4 = (\<lambda>n. ''n1''),
      de_now = (\<lambda>n. ''t'')\<rparr>"

text \<open>The same, with a pub/sub outage at offset 0 only: from offset 1 on there is one subscriber.\<close>

definition outage_delivery_env :: "string delivery_env" where
  "outage_delivery_env =
     (example_delivery_env (Some 1))
       \<lparr>de_publish := (\<lambda>n. if n = 0 then Inl RpcError else Inr 1)\<rparr>"

definition example_job :: "string \<Rightarrow> DeliveryJobEventProto" where
  "example_job text =
     \<lparr>pb_job_id = ''j1'', pb_job_message_id = ''m1'', pb_job_conversation_id = ''c1'',
      pb_recipient_id = ''bob'', pb_channel = ''delivery'',
      pb_payload = (example_event [''delivery''])\<lparr>pb_content := text\<rparr>\<rparr>"

section \<open>Status processor: services/status-service/src/main.py\<close>

record status_world =
  sw_messages :: messages_table
  sw_pubsub :: "(string \<times> string) list"
  sw_committed :: "nat list"

record status_env =
  se_to_uuid :: "string \<Rightarrow> string"
  se_json_dumps :: "(string \<times> string) list \<Rightarrow> string"
  se_update_raises :: "nat \<Rightarrow> bool"
  se_publish_raises :: "nat \<Rightarrow> bool"

text \<open>
  \<open>process_event\<close>: the unconditional \<open>UPDATE\<close>, then the notification of the sender when
  someone else updated the status. Both are inside \<open>try ... except Exception\<close>, which logs.
\<close>

definition process_event :: "status_env \<Rightarrow> nat \<Rightarrow> MessageStatusEventProto \<Rightarrow> status_world \<Rightarrow> status_world" where
  "process_event env offset proto_event w =
     (if se_update_raises env offset then w
      else
        (let w1 = w\<lparr>sw_messages :=
                     update_status (se_to_uuid env (st_conversation_id proto_event),
                                    st_sequence_number proto_event)
                       (st_status proto_event) (sw_messages w)\<rparr>
         in if st_sender_id proto_event \<noteq> st_user_id proto_event
            then if se_publish_raises env offset then w1
                 else w1\<lparr>sw_pubsub := sw_pubsub w1 @
                          [(''user:'' @ st_sender_id proto_event,
                            se_json_dumps env
                              [(''type'', ''STATUS_UPDATE''),
                               (''conversation_id'', st_conversation_id proto_event),
                               (''message_id'', st_message_id proto_event),
                               (''status'', st_status proto_event),
                               (''read_by'', st_user_id proto_event),
                               (''timestamp'', st_timestamp proto_event)])]\<rparr>
            else w1))"

text \<open>The handler of \<open>run\<close>: bytes that do not parse are logged; the callback never raises.\<close>

definition status_handler ::
    "status_env \<Rightarrow> nat \<Rightarrow> MessageStatusEventProto option \<Rightarrow> status_world \<Rightarrow> bool \<times> status_world" where
  "status_handler env offset msg w =
     (case msg of None \<Rightarrow> (False, w) | Some proto \<Rightarrow> (False, process_event env offset proto w))"

text \<open>The order \<open>SENT < DELIVERED < READ\<close> on the status strings, and the maximum under it.\<close>

definition status_rank :: "string \<Rightarrow> nat" where
  "status_rank s = (if s = ''READ'' then 2 else if s = ''DELIVERED'' then 1 else 0)"

definition status_max :: "string \<Rightarrow> string \<Rightarrow> string" where
  "status_max a b = (if status_rank a \<le> status_rank b then b else a)"

text \<open>The status stored in a row of the log, when the row exists and has one.\<close>

definition stored_status :: "string \<times> int \<Rightarrow> status_world \<Rightarrow> string option" where
  "stored_status k w = (case sw_messages w k of Some r \<Rightarrow> row_status r | None \<Rightarrow> None)"

definition example_status_env :: status_env where
  "example_status_env =
     \<lparr>se_to_uuid = (\<lambda>s. s),
      se_json_dumps = (\<lambda>d. concat (map (\<lambda>(k, v). k @ ''='' @ v @ '';'') d)),
      se_update_raises = (\<lambda>n. False), se_publish_raises = (\<lambda>n. False)\<rparr>"

definition example_status_event :: "string \<Rightarrow> MessageStatusEventProto" where
  "example_status_event s =
     \<lparr>st_event_id = ''e1'', st_message_id = ''m1'', st_sequence_number = 1,
      st_conversation_id = ''c1'', st_user_id = ''bob'', st_sender_id = ''alice'',
      st_status = s, st_timestamp = ''t''\<rparr>"

text \<open>The log after the ingestion of alice's message \<open>m1\<close> as sequence 1 of \<open>c1\<close>.\<close>

definition example_status_world :: status_world where
  "example_status_world =
     \<lparr>sw_messages = save_message (\<lambda>s. s) (example_event [''delivery'']) 1 Map.empty,
      sw_pubsub = [], sw_committed = []\<rparr>"

section \<open>Properties of the metadata store\<close>

subsection \<open>Facts about the counter update\<close>

lemma map_of_bump_sequence:
  "map_of (bump_sequence c rows) k =
     (if k = c then map_option (\<lambda>r. r\<lparr>last_sequence_number := last_sequence_number r + 1\<rparr>) (map_of rows c)
      else map_of rows k)"
  by (induction rows) (auto simp: bump_sequence_def)

lemma returning_sequences_Nil:
  "returning_sequences c rows = [] \<longleftrightarrow> map_of rows c = None"
  by (induction rows) (auto simp: returning_sequences_def bump_sequence_def)

lemma returning_sequences_Cons:
  "returning_sequences c rows = n # ns \<Longrightarrow>
     \<exists>r. map_of rows c = Some r \<and> n = last_sequence_number r + 1"
  by (induction rows) (auto simp: returning_sequences_def bump_sequence_def split: if_splits)

lemma returning_sequences_hd:
  "map_of rows c = Some r \<Longrightarrow> \<exists>ns. returning_sequences c rows = (last_sequence_number r + 1) # ns"
  by (induction rows) (auto simp: returning_sequences_def bump_sequence_def)

lemma stored_sequences_Nil:
  "stored_sequences m db = [] \<longleftrightarrow> m \<notin> fst ` set (message_sequences_log db)"
  by (auto simp: stored_sequences_def filter_empty_conv image_iff split: prod.splits)

lemma get_or_create_sequence_hit:
  "stored_sequences m db = e # es \<Longrightarrow> get_or_create_sequence c m db = (Inr e, db)"
  by (simp add: get_or_create_sequence_def)

lemma get_or_create_sequence_missing:
  "stored_sequences m db = [] \<Longrightarrow> returning_sequences c (conversations db) = [] \<Longrightarrow>
     get_or_create_sequence c m db = (Inl ConversationNotFoundError, db)"
  by (simp add: get_or_create_sequence_def)

lemma get_or_create_sequence_new:
  "stored_sequences m db = [] \<Longrightarrow> returning_sequences c (conversations db) = n # ns \<Longrightarrow>
     get_or_create_sequence c m db =
       (Inr n, db\<lparr>conversations := bump_sequence c (conversations db),
                  message_sequences_log := message_sequences_log db @ [(m, c, n)]\<rparr>)"
  by (simp add: get_or_create_sequence_def)

lemma stored_sequences_after_new:
  "stored_sequences m (db\<lparr>conversations := cs,
       message_sequences_log := message_sequences_log db @ [(m', c, s)]\<rparr>) =
     stored_sequences m db @ (if m' = m then [s] else [])"
  by (simp add: stored_sequences_def)

text \<open>A second call with the same arguments returns what the first returned and changes nothing more.\<close>

lemma get_or_create_sequence_again:
  "get_or_create_sequence c m (snd (get_or_create_sequence c m db)) =
     (fst (get_or_create_sequence c m db), snd (get_or_create_sequence c m db))"
proof (cases "stored_sequences m db")
  case (Cons e es)
  then show ?thesis by (simp add: get_or_create_sequence_hit)
next
  case Nil
  show ?thesis
  proof (cases "returning_sequences c (conversations db)")
    case Nil': Nil
    with Nil show ?thesis by (simp add: get_or_create_sequence_missing)
  next
    case (Cons n ns)
    let ?db' = "db\<lparr>conversations := bump_sequence c (conversations db),
                  message_sequences_log := message_sequences_log db @ [(m, c, n)]\<rparr>"
    have first: "get_or_create_sequence c m db = (Inr n, ?db')"
      using Nil Cons by (rule get_or_create_sequence_new)
    have "stored_sequences m ?db' = [n]"
      using Nil by (simp add: stored_sequences_after_new)
    then have "get_or_create_sequence c m ?db' = (Inr n, ?db')"
      by (rule get_or_create_sequence_hit)
    with first show ?thesis by simp
  qed
qed

lemma GetNextSequenceNumber_fst:
  "fst (GetNextSequenceNumber c m db) =
     (case fst (get_or_create_sequence c m db) of
        Inr n \<Rightarrow> Inr n
      | Inl ConversationNotFoundError \<Rightarrow> Inl NOT_FOUND
      | Inl RepositoryError \<Rightarrow> Inl INTERNAL)"
  by (simp add: GetNextSequenceNumber_def split: prod.splits sum.splits repo_error.splits)

lemma GetNextSequenceNumber_snd:
  "snd (GetNextSequenceNumber c m db) = snd (get_or_create_sequence c m db)"
  by (simp add: GetNextSequenceNumber_def split: prod.splits sum.splits repo_error.splits)

lemma example_db_eq:
  "example_db =
     \<lparr>conversations = [(''c1'', \<lparr>conv_type = ''private'', last_sequence_number = 1, conv_metadata = ''{}''\<rparr>)],
      conversation_members = [(''c1'', ''alice''), (''c1'', ''bob'')],
      message_sequences_log = [(''m1'', ''c1'', 1)],
      user_identities = [], users_directory = []\<rparr>"
  by (simp add: example_db_def create_conversation_def find_private_conversation_def empty_db_def
      get_or_create_sequence_def stored_sequences_def returning_sequences_def bump_sequence_def)

subsection \<open>C1: the sequencer is idempotent\<close>

text \<open>
  C1 (as amended). \<open>next_sequence(C, M)\<close>: if the sequence log already holds \<open>M\<close> the stored
  sequence is returned and nothing changes, whether or not \<open>C\<close> exists; otherwise, if \<open>C\<close>
  exists, its last-sequence goes up by 1, \<open>(M, C, new-sequence)\<close> is appended to the log, no
  other conversation changes, and the new value is returned; otherwise, when the log does
  not hold \<open>M\<close> and \<open>C\<close> does not exist, the call fails with NotFound and nothing changes.
  Calling it twice with the same \<open>(C, M)\<close> returns the same result.
\<close>

theorem next_sequence_idempotent:
  "(stored_sequences M db = e # es \<longrightarrow> GetNextSequenceNumber C M db = (Inr e, db))
   \<and> (stored_sequences M db = [] \<and> map_of (conversations db) C = Some row \<longrightarrow>
        GetNextSequenceNumber C M db =
          (Inr (last_sequence_number row + 1),
           db\<lparr>conversations := bump_sequence C (conversations db),
              message_sequences_log := message_sequences_log db @
                [(M, C, last_sequence_number row + 1)]\<rparr>)
        \<and> last_sequence C (snd (GetNextSequenceNumber C M db)) = Some (last_sequence_number row + 1)
        \<and> (\<forall>k. k \<noteq> C \<longrightarrow> last_sequence k (snd (GetNextSequenceNumber C M db)) = last_sequence k db))
   \<and> (stored_sequences M db = [] \<and> map_of (conversations db) C = None \<longrightarrow>
        GetNextSequenceNumber C M db = (Inl NOT_FOUND, db))
   \<and> GetNextSequenceNumber C M (snd (GetNextSequenceNumber C M db)) =
        (fst (GetNextSequenceNumber C M db), snd (GetNextSequenceNumber C M db))"
proof (intro conjI impI)
  assume "stored_sequences M db = e # es"
  then show "GetNextSequenceNumber C M db = (Inr e, db)"
    by (simp add: GetNextSequenceNumber_def get_or_create_sequence_hit)
next
  assume a: "stored_sequences M db = [] \<and> map_of (conversations db) C = Some row"
  then obtain ns where r: "returning_sequences C (conversations db) = (last_sequence_number row + 1) # ns"
    using returning_sequences_hd by blast
  show new: "GetNextSequenceNumber C M db =
          (Inr (last_sequence_number row + 1),
           db\<lparr>conversations := bump_sequence C (conversations db),
              message_sequences_log := message_sequences_log db @
                [(M, C, last_sequence_number row + 1)]\<rparr>)"
    using a r by (simp add: GetNextSequenceNumber_def get_or_create_sequence_new)
  show "last_sequence C (snd (GetNextSequenceNumber C M db)) = Some (last_sequence_number row + 1)"
    using a by (simp add: new last_sequence_def map_of_bump_sequence)
  show "\<forall>k. k \<noteq> C \<longrightarrow> last_sequence k (snd (GetNextSequenceNumber C M db)) = last_sequence k db"
    by (simp add: new last_sequence_def map_of_bump_sequence)
next
  assume a: "stored_sequences M db = [] \<and> map_of (conversations db) C = None"
  then have "returning_sequences C (conversations db) = []"
    by (simp add: returning_sequences_Nil)
  with a show "GetNextSequenceNumber C M db = (Inl NOT_FOUND, db)"
    by (simp add: GetNextSequenceNumber_def get_or_create_sequence_missing)
next
  show "GetNextSequenceNumber C M (snd (GetNextSequenceNumber C M db)) =
        (fst (GetNextSequenceNumber C M db), snd (GetNextSequenceNumber C M db))"
    by (simp add: prod_eq_iff GetNextSequenceNumber_fst GetNextSequenceNumber_snd
        get_or_create_sequence_again)
qed

text \<open>
  The theorem at concrete calls on \<open>example_db\<close>: a replay of \<open>m1\<close>, a new message \<open>m2\<close> in
  \<open>c1\<close>, and a new message in a conversation that does not exist.
\<close>

theorem next_sequence_idempotent_witness:
  "stored_sequences ''m1'' example_db = [1]
   \<and> GetNextSequenceNumber ''c1'' ''m1'' example_db = (Inr 1, example_db)
   \<and> stored_sequences ''m2'' example_db = []
   \<and> last_sequence ''c1'' example_db = Some 1
   \<and> fst (GetNextSequenceNumber ''c1'' ''m2'' example_db) = Inr 2
   \<and> last_sequence ''c1'' (snd (GetNextSequenceNumber ''c1'' ''m2'' example_db)) = Some 2
   \<and> map_of (conversations example_db) ''c9'' = None
   \<and> GetNextSequenceNumber ''c9'' ''m2'' example_db = (Inl NOT_FOUND, example_db)"
proof -
  let ?row = "\<lparr>conv_type = ''private'', last_sequence_number = 1, conv_metadata = ''{}''\<rparr>"
  have s1: "stored_sequences ''m1'' example_db = [1]"
    by (simp add: example_db_eq stored_sequences_def)
  have s2: "stored_sequences ''m2'' example_db = []"
    by (simp add: example_db_eq stored_sequences_def)
  have c1: "map_of (conversations example_db) ''c1'' = Some ?row"
    by (simp add: example_db_eq)
  have c9: "map_of (conversations example_db) ''c9'' = None"
    by (simp add: example_db_eq)
  note t1 = next_sequence_idempotent [of "''m1''" example_db 1 "[]" "''c1''" ?row]
  note t2 = next_sequence_idempotent [of "''m2''" example_db 1 "[]" "''c1''" ?row]
  note t3 = next_sequence_idempotent [of "''m2''" example_db 1 "[]" "''c9''" ?row]
  have new: "GetNextSequenceNumber ''c1'' ''m2'' example_db =
          (Inr (last_sequence_number ?row + 1),
           example_db\<lparr>conversations := bump_sequence ''c1'' (conversations example_db),
              message_sequences_log := message_sequences_log example_db @
                [(''m2'', ''c1'', last_sequence_number ?row + 1)]\<rparr>)
        \<and> last_sequence ''c1'' (snd (GetNextSequenceNumber ''c1'' ''m2'' example_db)) =
            Some (last_sequence_number ?row + 1)
        \<and> (\<forall>k. k \<noteq> ''c1'' \<longrightarrow>
             last_sequence k (snd (GetNextSequenceNumber ''c1'' ''m2'' example_db)) = last_sequence k example_db)"
    using t2 s2 c1 by blast
  have "GetNextSequenceNumber ''c1'' ''m1'' example_db = (Inr 1, example_db)"
    using t1 s1 by blast
  moreover have "fst (GetNextSequenceNumber ''c1'' ''m2'' example_db) = Inr 2"
    using conjunct1 [OF new] by simp
  moreover have "last_sequence ''c1'' (snd (GetNextSequenceNumber ''c1'' ''m2'' example_db)) = Some 2"
    using conjunct1 [OF conjunct2 [OF new]] by simp
  moreover have "GetNextSequenceNumber ''c9'' ''m2'' example_db = (Inl NOT_FOUND, example_db)"
    using t3 s2 c9 by blast
  moreover have "last_sequence ''c1'' example_db = Some 1"
    by (simp add: last_sequence_def c1)
  ultimately show ?thesis using s1 s2 c9 by simp
qed

text \<open>
  The claim as written fails where the log holds \<open>M\<close> under another conversation: the call
  for the conversation \<open>c9\<close>, which does not exist, returns the stored sequence of \<open>m1\<close>.
\<close>

theorem next_sequence_not_found_counterexample:
  "map_of (conversations example_db) ''c9'' = None
   \<and> GetNextSequenceNumber ''c9'' ''m1'' example_db = (Inr 1, example_db)"
  by (simp add: example_db_eq GetNextSequenceNumber_def get_or_create_sequence_def stored_sequences_def)

subsection \<open>C2: assigned sequences are contiguous from 1\<close>

lemma sequencer_inv_empty: "sequencer_inv empty_db"
  by (simp add: sequencer_inv_def empty_db_def sequences_of_def)

lemma create_conversation_cases:
  "snd (create_conversation cid t ms md db) = db
   \<or> (map_of (conversations db) cid = None
      \<and> snd (create_conversation cid t ms md db) =
          db\<lparr>conversations := conversations db @
                [(cid, \<lparr>conv_type = t, last_sequence_number = 0, conv_metadata = md\<rparr>)],
             conversation_members := conversation_members db @
                map (\<lambda>uid. (cid, uid)) (remdups ms)\<rparr>)"
  by (auto simp: create_conversation_def Let_def map_of_eq_None_iff split: option.splits)

lemma sequencer_inv_create:
  assumes "sequencer_inv db"
  shows "sequencer_inv (snd (create_conversation cid t ms md db))"
  using create_conversation_cases [of cid t ms md db]
proof
  assume "snd (create_conversation cid t ms md db) = db"
  with assms show ?thesis by simp
next
  let ?row = "\<lparr>conv_type = t, last_sequence_number = 0, conv_metadata = md\<rparr>"
  assume a: "map_of (conversations db) cid = None
      \<and> snd (create_conversation cid t ms md db) =
          db\<lparr>conversations := conversations db @ [(cid, ?row)],
             conversation_members := conversation_members db @
                map (\<lambda>uid. (cid, uid)) (remdups ms)\<rparr>"
  let ?db' = "db\<lparr>conversations := conversations db @ [(cid, ?row)],
             conversation_members := conversation_members db @
                map (\<lambda>uid. (cid, uid)) (remdups ms)\<rparr>"
  have m: "map_of (conversations ?db') c =
             (if c = cid then Some ?row else map_of (conversations db) c)" for c
    using a by (auto simp: map_add_def split: option.splits)
  have sq: "sequences_of c ?db' = sequences_of c db" for c
    by (simp add: sequences_of_def)
  have none: "sequences_of cid db = []"
    using assms a by (simp add: sequencer_inv_def)
  have "distinct (map fst (message_sequences_log ?db'))"
    using assms by (simp add: sequencer_inv_def)
  moreover have "sequences_of c ?db' = []" if "map_of (conversations ?db') c = None" for c
    using that m [of c] assms by (simp add: sq sequencer_inv_def split: if_splits)
  moreover have "0 \<le> last_sequence_number row
           \<and> set (sequences_of c ?db') = {1 .. last_sequence_number row}
           \<and> distinct (sequences_of c ?db')"
    if "map_of (conversations ?db') c = Some row" for c row
  proof (cases "c = cid")
    case True
    with that m [of cid] have "row = ?row" by simp
    with True none show ?thesis by (simp add: sq)
  next
    case False
    with that m [of c] have "map_of (conversations db) c = Some row" by simp
    with assms show ?thesis by (simp add: sq sequencer_inv_def)
  qed
  ultimately have "sequencer_inv ?db'"
    unfolding sequencer_inv_def by blast
  with a show ?thesis by simp
qed

lemma sequences_of_after_new:
  "sequences_of k (db\<lparr>conversations := cs,
       message_sequences_log := message_sequences_log db @ [(m, c, s)]\<rparr>) =
     sequences_of k db @ (if c = k then [s] else [])"
  by (simp add: sequences_of_def)

lemma atLeastAtMost_int_extend: "(0::int) \<le> n \<Longrightarrow> insert (n + 1) {1 .. n} = {1 .. n + 1}"
  by auto

lemma sequencer_inv_next:
  assumes inv: "sequencer_inv db"
  shows "sequencer_inv (snd (get_or_create_sequence c m db))"
proof (cases "stored_sequences m db")
  case (Cons e es)
  with inv show ?thesis by (simp add: get_or_create_sequence_hit)
next
  case Nil
  show ?thesis
  proof (cases "returning_sequences c (conversations db)")
    case Nil': Nil
    with Nil inv show ?thesis by (simp add: get_or_create_sequence_missing)
  next
    case (Cons n ns)
    then obtain r where r: "map_of (conversations db) c = Some r" and n: "n = last_sequence_number r + 1"
      using returning_sequences_Cons by blast
    let ?db' = "db\<lparr>conversations := bump_sequence c (conversations db),
                  message_sequences_log := message_sequences_log db @ [(m, c, n)]\<rparr>"
    have step: "snd (get_or_create_sequence c m db) = ?db'"
      using Nil Cons by (simp add: get_or_create_sequence_new)
    have fresh: "m \<notin> fst ` set (message_sequences_log db)"
      using Nil by (simp add: stored_sequences_Nil)
    have old: "0 \<le> last_sequence_number r" "set (sequences_of c db) = {1 .. last_sequence_number r}"
      "distinct (sequences_of c db)"
      using inv r by (auto simp: sequencer_inv_def)
    have d: "distinct (map fst (message_sequences_log ?db'))"
      using inv fresh by (simp add: sequencer_inv_def)
    have none: "sequences_of k ?db' = []" if "map_of (conversations ?db') k = None" for k
    proof -
      from that r have "k \<noteq> c" by (auto simp: map_of_bump_sequence)
      moreover from that this have "map_of (conversations db) k = None"
        by (simp add: map_of_bump_sequence)
      ultimately show ?thesis using inv by (simp add: sequences_of_after_new sequencer_inv_def)
    qed
    have some: "0 \<le> last_sequence_number row
           \<and> set (sequences_of k ?db') = {1 .. last_sequence_number row}
           \<and> distinct (sequences_of k ?db')"
      if k: "map_of (conversations ?db') k = Some row" for k row
    proof (cases "k = c")
      case True
      with k r have row: "last_sequence_number row = last_sequence_number r + 1"
        by (auto simp: map_of_bump_sequence)
      have "set (sequences_of c ?db') = insert (last_sequence_number r + 1) {1 .. last_sequence_number r}"
        using old by (simp add: sequences_of_after_new n)
      then have "set (sequences_of c ?db') = {1 .. last_sequence_number r + 1}"
        using old(1) by (simp add: atLeastAtMost_int_extend)
      moreover have "distinct (sequences_of c ?db')"
        using old by (simp add: sequences_of_after_new n)
      ultimately show ?thesis using True row old(1) by simp
    next
      case False
      with k have "map_of (conversations db) k = Some row"
        by (simp add: map_of_bump_sequence)
      with inv False show ?thesis
        by (simp add: sequences_of_after_new sequencer_inv_def)
    qed
    show ?thesis
      unfolding step sequencer_inv_def using d none some by blast
  qed
qed

lemma sequencer_inv_fold:
  "sequencer_inv db \<Longrightarrow> sequencer_inv (fold apply_meta_op ops db)"
proof (induction ops arbitrary: db)
  case Nil
  then show ?case by simp
next
  case (Cons a ops)
  have "sequencer_inv (apply_meta_op a db)"
    using Cons.prems by (cases a) (simp_all add: sequencer_inv_create sequencer_inv_next)
  then show ?case using Cons.IH by simp
qed

lemma sequencer_inv_run: "sequencer_inv (run_meta_ops ops empty_db)"
  by (simp add: run_meta_ops_def sequencer_inv_fold sequencer_inv_empty)

lemma sequences_as_filter:
  "[s. (m, c', s) \<leftarrow> rows, c' = c] =
     map (\<lambda>(m, c', s). s) (filter (\<lambda>(m, c', s). c' = c) rows)"
  by (induction rows) auto

lemma same_sequence_same_message:
  assumes d: "distinct (sequences_of c db)"
    and a: "(m, c, s) \<in> set (message_sequences_log db)"
    and b: "(m', c, s) \<in> set (message_sequences_log db)"
  shows "m = m'"
proof -
  let ?rows = "filter (\<lambda>(m, c', s). c' = c) (message_sequences_log db)"
  have eq: "sequences_of c db = map (\<lambda>(m, c', s). s) ?rows"
    by (simp add: sequences_of_def sequences_as_filter)
  then have inj: "inj_on (\<lambda>(m, c', s). s) (set ?rows)"
    using d by (simp add: distinct_map)
  have "(m, c, s) \<in> set ?rows" "(m', c, s) \<in> set ?rows"
    using a b by auto
  then have "(m, c, s) = (m', c, s)"
    using inj_onD [OF inj, of "(m, c, s)" "(m', c, s)"] by simp
  then show ?thesis by simp
qed

text \<open>
  C2. After any history of conversation creations and next-sequence calls on the empty
  store, every conversation that exists, with last-assigned sequence \<open>n\<close>, has exactly the
  sequences \<open>1, ..., n\<close> in the log, each once, and no two message-ids of the conversation
  hold the same sequence.
\<close>

theorem assigned_sequences_contiguous:
  assumes "last_sequence c (run_meta_ops ops empty_db) = Some n"
  shows "set (sequences_of c (run_meta_ops ops empty_db)) = {1 .. n}
     \<and> distinct (sequences_of c (run_meta_ops ops empty_db))
     \<and> (\<forall>m m' s. (m, c, s) \<in> set (message_sequences_log (run_meta_ops ops empty_db))
            \<and> (m', c, s) \<in> set (message_sequences_log (run_meta_ops ops empty_db)) \<longrightarrow> m = m')"
proof -
  let ?db = "run_meta_ops ops empty_db"
  from assms obtain row where row: "map_of (conversations ?db) c = Some row"
    and n: "last_sequence_number row = n"
    by (auto simp: last_sequence_def)
  have inv: "sequencer_inv ?db" by (rule sequencer_inv_run)
  with row n have s: "set (sequences_of c ?db) = {1 .. n}" and d: "distinct (sequences_of c ?db)"
    by (auto simp: sequencer_inv_def)
  from d have "\<forall>m m' s. (m, c, s) \<in> set (message_sequences_log ?db)
            \<and> (m', c, s) \<in> set (message_sequences_log ?db) \<longrightarrow> m = m'"
    by (blast intro: same_sequence_same_message)
  with s d show ?thesis by blast
qed

text \<open>
  The theorem on a concrete history: \<open>c1\<close> is created, \<open>m1\<close> and \<open>m2\<close> are sequenced, and
  \<open>m1\<close> is replayed.
\<close>

theorem assigned_sequences_contiguous_witness:
  "last_sequence ''c1'' (run_meta_ops
      [CreateConversation ''c1'' ''private'' [''alice'', ''bob''] ''{}'',
       NextSequence ''c1'' ''m1'', NextSequence ''c1'' ''m2'', NextSequence ''c1'' ''m1''] empty_db) = Some 2
   \<and> set (sequences_of ''c1'' (run_meta_ops
      [CreateConversation ''c1'' ''private'' [''alice'', ''bob''] ''{}'',
       NextSequence ''c1'' ''m1'', NextSequence ''c1'' ''m2'', NextSequence ''c1'' ''m1''] empty_db)) = {1 .. 2}
   \<and> distinct (sequences_of ''c1'' (run_meta_ops
      [CreateConversation ''c1'' ''private'' [''alice'', ''bob''] ''{}'',
       NextSequence ''c1'' ''m1'', NextSequence ''c1'' ''m2'', NextSequence ''c1'' ''m1''] empty_db))"
proof -
  let ?ops = "[CreateConversation ''c1'' ''private'' [''alice'', ''bob''] ''{}'',
       NextSequence ''c1'' ''m1'', NextSequence ''c1'' ''m2'', NextSequence ''c1'' ''m1'']"
  have h: "last_sequence ''c1'' (run_meta_ops ?ops empty_db) = Some 2"
    by (simp add: run_meta_ops_def create_conversation_def find_private_conversation_def empty_db_def
        get_or_create_sequence_def stored_sequences_def returning_sequences_def bump_sequence_def
        last_sequence_def)
  from assigned_sequences_contiguous [OF h] h show ?thesis by blast
qed

subsection \<open>C9: the delivery binding\<close>

lemma map_of_get_user_identities:
  "map_of (get_user_identities u db) c = map_of (user_identities db) (u, c)"
proof -
  have "map_of [(c, x). ((u', c), x) \<leftarrow> rows, u' = u] c = map_of rows (u, c)"
    for rows :: "((string \<times> string) \<times> string) list"
    by (induction rows) auto
  then show ?thesis by (simp add: get_user_identities_def)
qed

lemma map_of_upsert_identity:
  "map_of (upsert_identity k x rows) k' = (if k' = k then Some x else map_of rows k')"
proof (cases "k \<in> fst ` set rows")
  case True
  then obtain v where v: "map_of rows k = Some v"
    by (metis map_of_eq_None_iff not_Some_eq)
  have "map_of (map (\<lambda>(k', v). if k' = k then (k', x) else (k', v)) rows) k' =
          (if k' = k then map_option (\<lambda>_. x) (map_of rows k) else map_of rows k')"
    by (induction rows) auto
  with True v show ?thesis by (simp add: upsert_identity_def)
next
  case False
  then have "map_of rows k = None" by (simp add: map_of_eq_None_iff)
  with False show ?thesis
    by (auto simp: upsert_identity_def map_add_def split: option.splits)
qed

lemma map_of_insert_identity_if_absent:
  "map_of (insert_identity_if_absent k x rows) k' =
     (if k' = k \<and> map_of rows k = None then Some x else map_of rows k')"
proof (cases "k \<in> fst ` set rows")
  case True
  then have "map_of rows k \<noteq> None" by (simp add: map_of_eq_None_iff)
  with True show ?thesis by (simp add: insert_identity_if_absent_def)
next
  case False
  then have "map_of rows k = None" by (simp add: map_of_eq_None_iff)
  with False show ?thesis
    by (auto simp: insert_identity_if_absent_def map_add_def split: option.splits)
qed

lemma process_user_created_delivery:
  "map_of (user_identities (process_user_created ev db)) (u, ''delivery'') =
     (if u = uc_user_id ev \<and> map_of (user_identities db) (u, ''delivery'') = None
      then Some u else map_of (user_identities db) (u, ''delivery''))"
  by (cases "map_of (user_identities db) (uc_user_id ev, ''delivery'')")
     (auto simp: process_user_created_def Let_def map_of_insert_identity_if_absent)

lemma add_identity_delivery:
  "ch \<noteq> ''delivery'' \<Longrightarrow>
     map_of (user_identities (add_identity v ch x db)) (u, ''delivery'') =
     map_of (user_identities db) (u, ''delivery'')"
  by (simp add: add_identity_def map_of_upsert_identity)

lemma delivery_binding_kept:
  assumes "\<forall>op \<in> set ops. \<not> binds_delivery op"
    and "map_of (user_identities db) (u, ''delivery'') = Some u"
  shows "map_of (user_identities (fold apply_identity_op ops db)) (u, ''delivery'') = Some u"
  using assms
proof (induction ops arbitrary: db)
  case Nil
  then show ?case by simp
next
  case (Cons a ops)
  have "map_of (user_identities (apply_identity_op a db)) (u, ''delivery'') = Some u"
    using Cons.prems
    by (cases a) (simp_all add: process_user_created_delivery add_identity_delivery)
  with Cons show ?case by simp
qed

lemma delivery_binding_own:
  assumes "\<forall>op \<in> set ops. \<not> binds_delivery op"
    and "\<forall>u x. map_of (user_identities db) (u, ''delivery'') = Some x \<longrightarrow> x = u"
  shows "\<forall>u x. map_of (user_identities (fold apply_identity_op ops db)) (u, ''delivery'') = Some x \<longrightarrow> x = u"
  using assms
proof (induction ops arbitrary: db)
  case Nil
  then show ?case by simp
next
  case (Cons a ops)
  have "\<forall>u x. map_of (user_identities (apply_identity_op a db)) (u, ''delivery'') = Some x \<longrightarrow> x = u"
    using Cons.prems
    by (cases a) (auto simp: process_user_created_delivery add_identity_delivery split: if_splits)
  with Cons show ?case by simp
qed

text \<open>
  C9 (as amended). After any history of user-created events and identity bindings on the
  empty store in which no \<open>add_identity\<close> call binds the channel \<open>delivery\<close> (the API's
  \<open>link_identity\<close> accepts whatsapp, instagram and telegram only), \<open>get_identities(u)\<close>
  contains \<open>delivery \<mapsto> u\<close> for every user \<open>u\<close> whose user-created event is in the history.
\<close>

theorem get_identities_contains_delivery:
  assumes created: "UserCreated ev \<in> set ops"
    and api: "\<forall>op \<in> set ops. \<not> binds_delivery op"
  shows "map_of (get_user_identities (uc_user_id ev) (run_identity_ops ops empty_db)) ''delivery''
           = Some (uc_user_id ev)"
proof -
  let ?u = "uc_user_id ev"
  from created obtain pre post where ops: "ops = pre @ UserCreated ev # post"
    by (auto dest: split_list)
  let ?db1 = "fold apply_identity_op pre empty_db"
  have "\<forall>u x. map_of (user_identities ?db1) (u, ''delivery'') = Some x \<longrightarrow> x = u"
    using api by (intro delivery_binding_own) (simp_all add: ops empty_db_def)
  then have "map_of (user_identities (process_user_created ev ?db1)) (?u, ''delivery'') = Some ?u"
    by (cases "map_of (user_identities ?db1) (?u, ''delivery'')")
       (simp_all add: process_user_created_delivery)
  then have "map_of (user_identities (fold apply_identity_op post (process_user_created ev ?db1)))
      (?u, ''delivery'') = Some ?u"
    using api by (intro delivery_binding_kept) (simp_all add: ops)
  then show ?thesis
    by (simp add: map_of_get_user_identities run_identity_ops_def ops)
qed

text \<open>
  The theorem on a concrete history: bob registers, then links a whatsapp number.
\<close>

theorem get_identities_contains_delivery_witness:
  "map_of (get_user_identities ''bob''
      (run_identity_ops
         [UserCreated \<lparr>uc_event_id = ''e1'', uc_user_id = ''bob'', uc_username = ''bob'',
                       uc_email = ''bob@test.com'', uc_name = ''Bob'', uc_timestamp = ''t''\<rparr>,
          AddIdentity ''bob'' ''whatsapp'' ''+5511999''] empty_db)) ''delivery'' = Some ''bob''"
  using get_identities_contains_delivery
    [of "\<lparr>uc_event_id = ''e1'', uc_user_id = ''bob'', uc_username = ''bob'',
           uc_email = ''bob@test.com'', uc_name = ''Bob'', uc_timestamp = ''t''\<rparr>"
        "[UserCreated \<lparr>uc_event_id = ''e1'', uc_user_id = ''bob'', uc_username = ''bob'',
                       uc_email = ''bob@test.com'', uc_name = ''Bob'', uc_timestamp = ''t''\<rparr>,
          AddIdentity ''bob'' ''whatsapp'' ''+5511999'']"]
  by simp

text \<open>
  The claim as written fails for a user whose user-created event has not been processed:
  \<open>get_user_identities\<close> returns the stored rows and adds nothing. Here bob has linked a
  whatsapp number and has no \<open>delivery\<close> entry.
\<close>

theorem get_identities_without_delivery_counterexample:
  "get_user_identities ''bob'' (add_identity ''bob'' ''whatsapp'' ''+5511999'' empty_db)
     = [(''whatsapp'', ''+5511999'')]
   \<and> map_of (get_user_identities ''bob'' (add_identity ''bob'' ''whatsapp'' ''+5511999'' empty_db))
        ''delivery'' = None"
  by (simp add: get_user_identities_def add_identity_def upsert_identity_def empty_db_def)

section \<open>Properties of the protobuf conversion\<close>

subsection \<open>C10: the round trip of a message event\<close>

text \<open>
  C10 (as amended). For an event whose \<open>sequence_number\<close> is \<open>None\<close> or positive and whose
  \<open>attachments\<close> are \<open>None\<close> or a non-empty dictionary that JSON preserves (\<open>json.loads\<close>
  reads it back, equal, from the non-empty text that \<open>json.dumps\<close> writes for it),
  \<open>message_sent_from_proto\<close> after \<open>message_sent_to_proto\<close> gives the event back. When the
  conversion back returns, a \<open>sequence_number\<close> of 0 has become \<open>None\<close>; an empty
  \<open>attachments\<close> dictionary always comes back as \<open>None\<close>.
\<close>

theorem message_sent_proto_roundtrip:
  fixes event :: "'v MessageSentEvent"
  shows
  "((sequence_number event = None \<or> (\<exists>n. sequence_number event = Some n \<and> 0 < n))
     \<and> (attachments event = None
         \<or> (\<exists>d. attachments event = Some d \<and> d \<noteq> []
                 \<and> json_dumps d \<noteq> '''' \<and> json_loads (json_dumps d) = Inr (Some d)))
     \<longrightarrow> message_sent_from_proto json_loads (message_sent_to_proto json_dumps event) = Inr event)
   \<and> (sequence_number event = Some 0
        \<and> message_sent_from_proto json_loads (message_sent_to_proto json_dumps event) = Inr returned
        \<longrightarrow> sequence_number returned = None)
   \<and> (attachments event = Some [] \<longrightarrow>
        (\<exists>returned'. message_sent_from_proto json_loads (message_sent_to_proto json_dumps event) = Inr returned'
                 \<and> attachments returned' = None))"
  by (cases event)
     (auto simp: message_sent_from_proto_def message_sent_to_proto_def split: sum.splits if_splits)

text \<open>
  The theorem on concrete events: a persisted message with an attachment that JSON
  preserves, and the two normalised forms. Here \<open>json.dumps\<close> and \<open>json.loads\<close> are fixed
  to what they do on the one dictionary in use.
\<close>

theorem message_sent_proto_roundtrip_witness:
  "message_sent_from_proto (\<lambda>s. Inr (Some [(''a'', PyStr ''k1'')]))
     (message_sent_to_proto (\<lambda>d. ''{\"a\": \"k1\"}'') (example_attachment_event (PyStr ''k1'')))
     = Inr (example_attachment_event (PyStr ''k1''))
   \<and> map_sum id sequence_number
       (message_sent_from_proto (\<lambda>s. Inr (Some [(''a'', PyStr ''k1'')]))
          (message_sent_to_proto (\<lambda>d. ''{\"a\": \"k1\"}'')
             ((example_attachment_event (PyStr ''k1''))\<lparr>sequence_number := Some 0\<rparr>)))
     = Inr None
   \<and> map_sum id attachments
       (message_sent_from_proto (\<lambda>s. Inr (Some [(''a'', PyStr ''k1'')]))
          (message_sent_to_proto (\<lambda>d. ''{\"a\": \"k1\"}'')
             ((example_attachment_event (PyStr ''k1''))\<lparr>attachments := Some []\<rparr>)))
     = Inr None"
proof -
  let ?loads = "\<lambda>s::string. Inr (Some [(''a'', PyStr ''k1'')]) :: conv_error + (string \<times> pyvalue) list option"
  let ?dumps = "\<lambda>d::(string \<times> pyvalue) list. ''{\"a\": \"k1\"}''"
  let ?e1 = "example_attachment_event (PyStr ''k1'')"
  let ?e2 = "?e1\<lparr>sequence_number := Some 0\<rparr>"
  let ?e3 = "?e1\<lparr>attachments := Some []\<rparr>"
  have "message_sent_from_proto ?loads (message_sent_to_proto ?dumps ?e1) = Inr ?e1"
    using message_sent_proto_roundtrip [of ?e1 ?dumps ?loads]
    by (simp add: example_attachment_event_def)
  moreover have "map_sum id sequence_number
       (message_sent_from_proto ?loads (message_sent_to_proto ?dumps ?e2)) = Inr None"
  proof (cases "message_sent_from_proto ?loads (message_sent_to_proto ?dumps ?e2)")
    case (Inl e)
    then show ?thesis
      by (simp add: message_sent_from_proto_def message_sent_to_proto_def example_attachment_event_def)
  next
    case (Inr returned)
    with message_sent_proto_roundtrip [of ?e2 ?dumps ?loads returned]
    show ?thesis by (simp add: example_attachment_event_def)
  qed
  moreover have "map_sum id attachments
       (message_sent_from_proto ?loads (message_sent_to_proto ?dumps ?e3)) = Inr None"
    using message_sent_proto_roundtrip [of ?e3 ?dumps ?loads]
    by (auto simp: example_attachment_event_def)
  ultimately show ?thesis by blast
qed

text \<open>
  The claim as written fails for a dictionary that JSON does not preserve. The attachment
  \<open>{"a": (1, 2)}\<close> holds a tuple; \<open>json.dumps\<close> writes it as the array \<open>[1, 2]\<close>, which
  \<open>json.loads\<close> reads as a list: the event that comes back is not the original. (Here
  \<open>json.dumps\<close> and \<open>json.loads\<close> are what they are on this dictionary and this text.)
\<close>

theorem message_sent_tuple_counterexample:
  "message_sent_from_proto (\<lambda>s. Inr (Some [(''a'', PyList [PyInt 1, PyInt 2])]))
     (message_sent_to_proto (\<lambda>d. ''{\"a\": [1, 2]}'')
        (example_attachment_event (PyTuple [PyInt 1, PyInt 2])))
     = Inr (example_attachment_event (PyList [PyInt 1, PyInt 2]))
   \<and> example_attachment_event (PyList [PyInt 1, PyInt 2])
       \<noteq> example_attachment_event (PyTuple [PyInt 1, PyInt 2])
   \<and> sequence_number (example_attachment_event (PyTuple [PyInt 1, PyInt 2])) = Some 1
   \<and> attachments (example_attachment_event (PyTuple [PyInt 1, PyInt 2]))
       = Some [(''a'', PyTuple [PyInt 1, PyInt 2])]"
  by (simp add: message_sent_from_proto_def message_sent_to_proto_def example_attachment_event_def)

section \<open>Properties of the fan-out dispatcher\<close>

lemma dispatch_routes_sent:
  "(t, k, j) \<in> set (snd (dispatch_routes uuid5 env ev m routes sent)) \<Longrightarrow>
     (t, k, j) \<in> set sent \<or> (\<exists>c. j = make_job uuid5 ev m c \<and> k = m \<and> map_of CHANNEL_TOPIC_MAP c = Some t)"
proof (induction routes arbitrary: sent)
  case Nil
  then show ?case by simp
next
  case (Cons r routes)
  obtain c x where r: "r = (c, x)" by (cases r)
  show ?case
  proof (cases "map_of CHANNEL_TOPIC_MAP c")
    case None
    with Cons r show ?thesis by simp
  next
    case (Some topic)
    show ?thesis
    proof (cases "topic = [] \<or> send_raises env (topic, m, make_job uuid5 ev m c)")
      case True
      with Cons r Some show ?thesis by (auto split: if_splits)
    next
      case False
      with Cons.prems r Some
      have "(t, k, j) \<in> set (snd (dispatch_routes uuid5 env ev m routes
              (sent @ [(topic, m, make_job uuid5 ev m c)])))"
        by simp
      from Cons.IH [OF this] Some show ?thesis by auto
    qed
  qed
qed

lemma dispatch_members_sent:
  "(t, k, j) \<in> set (snd (dispatch_members uuid5 env ev members sent)) \<Longrightarrow>
     (t, k, j) \<in> set sent
     \<or> (\<exists>m c. j = make_job uuid5 ev m c \<and> k = m \<and> map_of CHANNEL_TOPIC_MAP c = Some t)"
proof (induction members arbitrary: sent)
  case Nil
  then show ?case by simp
next
  case (Cons m members)
  show ?case
  proof (cases "m = pb_sender_id ev")
    case True
    with Cons show ?thesis by simp
  next
    case False
    show ?thesis
    proof (cases "identities_of env m")
      case (Inl e)
      with Cons.prems False show ?thesis by simp
    next
      case (Inr ids)
      let ?routes = "resolve_target_channels (set_iter env) (pb_target_channels ev) ids"
      show ?thesis
      proof (cases "ids = [] \<or> ?routes = []")
        case True
        with False Inr have "dispatch_members uuid5 env ev (m # members) sent =
            dispatch_members uuid5 env ev members sent"
          by (auto simp: Let_def)
        with Cons show ?thesis by simp
      next
        case skip: False
        obtain ok sent' where d: "dispatch_routes uuid5 env ev m ?routes sent = (ok, sent')"
          by (cases "dispatch_routes uuid5 env ev m ?routes sent")
        have inner: "(t, k, j) \<in> set sent' \<Longrightarrow> (t, k, j) \<in> set sent
            \<or> (\<exists>c. j = make_job uuid5 ev m c \<and> k = m \<and> map_of CHANNEL_TOPIC_MAP c = Some t)"
          using dispatch_routes_sent [of t k j uuid5 env ev m ?routes sent] d by simp
        show ?thesis
        proof (cases ok)
          case True
          with Cons.prems False Inr skip d
          have "(t, k, j) \<in> set (snd (dispatch_members uuid5 env ev members sent'))"
            by (simp add: Let_def)
          from Cons.IH [OF this] inner show ?thesis by blast
        next
          case ok: False
          with Cons.prems False Inr skip d have "(t, k, j) \<in> set sent'"
            by (simp add: Let_def)
          with inner show ?thesis by blast
        qed
      qed
    qed
  qed
qed

lemma fanout_event_sent:
  "(t, k, j) \<in> set (snd (fanout_event uuid5 env members_result ev)) \<Longrightarrow>
     \<exists>m c. j = make_job uuid5 ev m c \<and> k = m \<and> map_of CHANNEL_TOPIC_MAP c = Some t"
  using dispatch_members_sent [of t k j uuid5 env ev _ "[]"]
  by (auto simp: fanout_event_def split: sum.splits if_splits)

subsection \<open>C6: job ids are a function of message, recipient and channel\<close>

text \<open>
  C6. Every job that the dispatcher sends for a persisted event with message-id \<open>M\<close>, to
  recipient \<open>m\<close> on channel \<open>c\<close>, has the job-id \<open>uuid5(NAMESPACE_DNS, "M:m:c")\<close>, carries
  the event as payload and is keyed by \<open>m\<close>. So a job of a replay of the same event, under
  any answers of the metadata service and any iteration order, equals the job of the first
  run for the same recipient and channel, with the same topic and key.
\<close>

theorem job_id_deterministic:
  assumes "(t, k, j) \<in> set (snd (fanout_event uuid5 env members_result ev))"
    and "(t', k', j') \<in> set (snd (fanout_event uuid5 env' members_result' ev))"
  shows "pb_job_id j =
           uuid5 NAMESPACE_DNS (pb_message_id ev @ '':'' @ pb_recipient_id j @ '':'' @ pb_channel j)
     \<and> pb_job_message_id j = pb_message_id ev
     \<and> pb_job_conversation_id j = pb_conversation_id ev
     \<and> pb_payload j = ev
     \<and> k = pb_recipient_id j
     \<and> (pb_recipient_id j' = pb_recipient_id j \<and> pb_channel j' = pb_channel j
          \<longrightarrow> (t', k', j') = (t, k, j))"
proof -
  from fanout_event_sent [OF assms(1)] obtain m c where
    j: "j = make_job uuid5 ev m c" "k = m" "map_of CHANNEL_TOPIC_MAP c = Some t" by blast
  from fanout_event_sent [OF assms(2)] obtain m' c' where
    j': "j' = make_job uuid5 ev m' c'" "k' = m'" "map_of CHANNEL_TOPIC_MAP c' = Some t'" by blast
  from j j' show ?thesis by (auto simp: make_job_def)
qed

text \<open>
  The theorem on the example: alice's message \<open>m1\<close> to \<open>["whatsapp"]\<close>, dispatched twice,
  the second time with the members in the other order.
\<close>

theorem job_id_deterministic_witness:
  "(''connector.whatsapp.outbound.v1'', ''bob'', make_job example_uuid5 (example_event [''whatsapp'']) ''bob'' ''whatsapp'')
     \<in> set (snd (fanout_event example_uuid5 example_env (Inr [''alice'', ''bob'']) (example_event [''whatsapp''])))
   \<and> (''connector.whatsapp.outbound.v1'', ''bob'', make_job example_uuid5 (example_event [''whatsapp'']) ''bob'' ''whatsapp'')
     \<in> set (snd (fanout_event example_uuid5 example_env (Inr [''bob'', ''alice'']) (example_event [''whatsapp''])))
   \<and> pb_job_id (make_job example_uuid5 (example_event [''whatsapp'']) ''bob'' ''whatsapp'')
       = example_uuid5 NAMESPACE_DNS ''m1:bob:whatsapp''"
proof -
  let ?ev = "example_event [''whatsapp'']"
  let ?j = "make_job example_uuid5 ?ev ''bob'' ''whatsapp''"
  have a: "(''connector.whatsapp.outbound.v1'', ''bob'', ?j)
     \<in> set (snd (fanout_event example_uuid5 example_env (Inr [''alice'', ''bob'']) ?ev))"
    by (simp add: fanout_event_def example_env_def example_event_def resolve_target_channels_def
        List.map_filter_def CHANNEL_TOPIC_MAP_def)
  have b: "(''connector.whatsapp.outbound.v1'', ''bob'', ?j)
     \<in> set (snd (fanout_event example_uuid5 example_env (Inr [''bob'', ''alice'']) ?ev))"
    by (simp add: fanout_event_def example_env_def example_event_def resolve_target_channels_def
        List.map_filter_def CHANNEL_TOPIC_MAP_def)
  have "pb_job_id ?j = example_uuid5 NAMESPACE_DNS (pb_message_id ?ev @ '':'' @ pb_recipient_id ?j @ '':'' @ pb_channel ?j)"
    using job_id_deterministic [OF a b] by blast
  then have "pb_job_id ?j = example_uuid5 NAMESPACE_DNS ''m1:bob:whatsapp''"
    by (simp add: make_job_def example_event_def)
  with a b show ?thesis by blast
qed

subsection \<open>C4: where the default channel comes from\<close>

lemma valid_set_iter_single:
  assumes "valid_set_iter f"
  shows "f [x] = [x]"
proof (cases "f [x]")
  case Nil
  with assms have "set [x] = {}" by (metis valid_set_iter_def set_empty2)
  then show ?thesis by simp
next
  case (Cons y ys)
  from assms have s: "set (y # ys) = {x}" and d: "distinct (y # ys)"
    unfolding Cons [symmetric] by (simp_all add: valid_set_iter_def)
  from s have y: "y = x" and sub: "set ys \<subseteq> {x}" by auto
  from d y have "x \<notin> set ys" by simp
  with sub have "ys = []" by (cases ys) auto
  with y Cons show ?thesis by simp
qed

lemma valid_set_iter_empty:
  assumes "valid_set_iter f"
  shows "f [] = []"
  using assms by (metis valid_set_iter_def set_empty2 list.set(1))

lemma resolve_delivery:
  assumes "valid_set_iter iter"
  shows "resolve_target_channels iter [''delivery''] ids =
     (case map_of ids ''delivery'' of Some x \<Rightarrow> [(''delivery'', x)] | None \<Rightarrow> [])"
  using valid_set_iter_single [OF assms, of "''delivery''"]
  by (simp add: resolve_target_channels_def List.map_filter_def split: option.splits)

lemma resolve_empty:
  assumes "valid_set_iter iter"
  shows "resolve_target_channels iter [] ids = []"
  using valid_set_iter_empty [OF assms]
  by (simp add: resolve_target_channels_def List.map_filter_def)

lemma dispatch_members_empty_request:
  assumes "valid_set_iter (set_iter env)" and "pb_target_channels ev = []"
  shows "set (snd (dispatch_members uuid5 env ev members sent)) = set sent"
proof (induction members arbitrary: sent)
  case Nil
  then show ?case by simp
next
  case (Cons m members)
  then show ?case
    using assms by (auto simp: resolve_empty Let_def split: sum.splits)
qed

lemma dispatch_members_delivery:
  assumes iter: "valid_set_iter (set_iter env)"
    and req: "pb_target_channels ev = [''delivery'']"
    and send: "\<forall>j. \<not> send_raises env j"
    and rpc: "\<forall>m \<in> set members. identities_of env m \<noteq> Inl RpcError"
  shows "dispatch_members uuid5 env ev members sent =
           (True, sent @ concat (map (delivery_job_of uuid5 env ev) members))"
  using rpc
proof (induction members arbitrary: sent)
  case Nil
  then show ?case by simp
next
  case (Cons m members)
  then have IH: "dispatch_members uuid5 env ev members s =
           (True, s @ concat (map (delivery_job_of uuid5 env ev) members))" for s
    by simp
  show ?case
  proof (cases "m = pb_sender_id ev")
    case True
    then have "delivery_job_of uuid5 env ev m = []" by (simp add: delivery_job_of_def)
    with True show ?thesis by (simp add: IH)
  next
    case False
    have "identities_of env m \<noteq> Inl e" for e
      using Cons.prems by (cases e) simp
    then obtain ids where ids: "identities_of env m = Inr ids"
      by (cases "identities_of env m") auto
    show ?thesis
    proof (cases "map_of ids ''delivery''")
      case None
      with False ids have "delivery_job_of uuid5 env ev m = []" by (simp add: delivery_job_of_def)
      with None False ids show ?thesis
        by (simp add: IH req resolve_delivery [OF iter] Let_def)
    next
      case (Some x)
      then have ne: "ids \<noteq> []" by auto
      from False ids Some have "delivery_job_of uuid5 env ev m =
          [(''connector.delivery.outbound.v1'', m, make_job uuid5 ev m ''delivery'')]"
        by (simp add: delivery_job_of_def)
      with False ids Some send ne show ?thesis
        by (simp add: IH req resolve_delivery [OF iter] Let_def CHANNEL_TOPIC_MAP_def)
    qed
  qed
qed

lemma jobs_for_delivery_job_of:
  "jobs_for m (delivery_job_of uuid5 env ev m') =
     (if m' = m then map (\<lambda>(t, k, j). j) (delivery_job_of uuid5 env ev m) else [])"
  by (auto simp: jobs_for_def delivery_job_of_def make_job_def split: sum.splits option.splits)

lemma jobs_for_append: "jobs_for m (xs @ ys) = jobs_for m xs @ jobs_for m ys"
  by (simp add: jobs_for_def)

lemma jobs_for_members:
  "distinct members \<Longrightarrow>
   jobs_for m (concat (map (delivery_job_of uuid5 env ev) members)) =
     (if m \<in> set members then map (\<lambda>(t, k, j). j) (delivery_job_of uuid5 env ev m) else [])"
proof (induction members)
  case Nil
  then show ?case by (simp add: jobs_for_def)
next
  case (Cons a members)
  then show ?case
    by (auto simp: jobs_for_append jobs_for_delivery_job_of)
qed

text \<open>
  C4 (as amended). An absent or empty list of requested channels is replaced by
  \<open>["delivery"]\<close> by the request API, in the event it submits. For a persisted event whose
  list is \<open>["delivery"]\<close>, when no call fails, each non-sender member whose identities
  include the channel \<open>delivery\<close> gets exactly one job, on that channel. The dispatcher
  itself applies no default: a persisted event that reaches it with an empty list
  produces no job.
\<close>

theorem default_delivery_channel:
  fixes request :: "'v CreateMessageRequest"
  assumes iter: "valid_set_iter (set_iter env)"
  shows "((req_target_channels request = None \<or> req_target_channels request = Some []) \<longrightarrow>
            pb_target_channels (message_sent_to_proto json_dumps (send_message_event request user now))
              = [''delivery''])
     \<and> (pb_target_channels ev = [''delivery''] \<and> (\<forall>j. \<not> send_raises env j)
          \<and> (\<forall>m' \<in> set members. identities_of env m' \<noteq> Inl RpcError)
          \<and> distinct members \<and> m \<in> set members \<and> m \<noteq> pb_sender_id ev
          \<and> identities_of env m = Inr ids \<and> map_of ids ''delivery'' = Some x
          \<longrightarrow> jobs_for m (snd (fanout_event uuid5 env (Inr members) ev))
                = [make_job uuid5 ev m ''delivery''])
     \<and> (pb_target_channels ev = [] \<longrightarrow> snd (fanout_event uuid5 env members_result ev) = [])"
proof (intro conjI impI)
  assume "req_target_channels request = None \<or> req_target_channels request = Some []"
  then show "pb_target_channels (message_sent_to_proto json_dumps (send_message_event request user now))
              = [''delivery'']"
    by (auto simp: message_sent_to_proto_def send_message_event_def)
next
  assume a: "pb_target_channels ev = [''delivery''] \<and> (\<forall>j. \<not> send_raises env j)
          \<and> (\<forall>m' \<in> set members. identities_of env m' \<noteq> Inl RpcError)
          \<and> distinct members \<and> m \<in> set members \<and> m \<noteq> pb_sender_id ev
          \<and> identities_of env m = Inr ids \<and> map_of ids ''delivery'' = Some x"
  then have ne: "members \<noteq> []" by auto
  have "dispatch_members uuid5 env ev members [] =
          (True, [] @ concat (map (delivery_job_of uuid5 env ev) members))"
    using a by (intro dispatch_members_delivery [OF iter]) simp_all
  with ne have "snd (fanout_event uuid5 env (Inr members) ev) =
      concat (map (delivery_job_of uuid5 env ev) members)"
    by (simp add: fanout_event_def)
  then show "jobs_for m (snd (fanout_event uuid5 env (Inr members) ev))
                = [make_job uuid5 ev m ''delivery'']"
    using a by (simp add: jobs_for_members delivery_job_of_def)
next
  assume "pb_target_channels ev = []"
  then have "set (snd (dispatch_members uuid5 env ev ms [])) = set []" for ms
    by (rule dispatch_members_empty_request [OF iter])
  then show "snd (fanout_event uuid5 env members_result ev) = []"
    by (simp add: fanout_event_def split: sum.splits)
qed

text \<open>
  The theorem on the example: a request without \<open>target_channels\<close>, and the fan-out of
  alice's message to bob with the list \<open>["delivery"]\<close> and with the empty list.
\<close>

theorem default_delivery_channel_witness:
  "pb_target_channels (message_sent_to_proto (\<lambda>d. ''{}'')
      (send_message_event
         \<lparr>idempotency_key = ''m1'', req_conversation_id = ''c1'', req_message_type = ''text'',
          req_content = ''hi'', req_attachments = (None :: (string \<times> string) list option),
          req_metadata = None, req_target_channels = None\<rparr> ''alice'' ''t'')) = [''delivery'']
   \<and> jobs_for ''bob'' (snd (fanout_event example_uuid5 example_env (Inr [''alice'', ''bob''])
        (example_event [''delivery''])))
       = [make_job example_uuid5 (example_event [''delivery'']) ''bob'' ''delivery'']
   \<and> snd (fanout_event example_uuid5 example_env (Inr [''alice'', ''bob'']) (example_event [])) = []"
proof -
  let ?req = "\<lparr>idempotency_key = ''m1'', req_conversation_id = ''c1'', req_message_type = ''text'',
          req_content = ''hi'', req_attachments = (None :: (string \<times> string) list option),
          req_metadata = None, req_target_channels = None\<rparr>"
  have iter: "valid_set_iter (set_iter example_env)"
    by (simp add: valid_set_iter_def example_env_def)
  note t1 = default_delivery_channel [OF iter, of ?req "\<lambda>d. ''{}''" "''alice''" "''t''"
      "example_event [''delivery'']" "[''alice'', ''bob'']" "''bob''"
      "[(''delivery'', ''bob''), (''whatsapp'', ''+5511999'')]" "''bob''" example_uuid5
      "Inr [''alice'', ''bob'']"]
  note t2 = default_delivery_channel [OF iter, of ?req "\<lambda>d. ''{}''" "''alice''" "''t''"
      "example_event []" "[''alice'', ''bob'']" "''bob''"
      "[(''delivery'', ''bob''), (''whatsapp'', ''+5511999'')]" "''bob''" example_uuid5
      "Inr [''alice'', ''bob'']"]
  have "pb_target_channels (message_sent_to_proto (\<lambda>d. ''{}'') (send_message_event ?req ''alice'' ''t''))
          = [''delivery'']"
    using t1 by simp
  moreover have "jobs_for ''bob'' (snd (fanout_event example_uuid5 example_env (Inr [''alice'', ''bob''])
        (example_event [''delivery''])))
       = [make_job example_uuid5 (example_event [''delivery'']) ''bob'' ''delivery'']"
    using t1 by (simp add: example_env_def example_event_def)
  moreover have "snd (fanout_event example_uuid5 example_env (Inr [''alice'', ''bob'']) (example_event [])) = []"
    using t2 by (simp add: example_event_def)
  ultimately show ?thesis by blast
qed

text \<open>
  The claim as written fails at the dispatcher: bob is a member, is not the sender and has
  the \<open>delivery\<close> identity, and the persisted event with an empty list of requested
  channels yields no job for him.
\<close>

theorem fanout_empty_channels_counterexample:
  "identities_of example_env ''bob'' = Inr [(''delivery'', ''bob''), (''whatsapp'', ''+5511999'')]
   \<and> pb_sender_id (example_event []) = ''alice''
   \<and> jobs_for ''bob'' (snd (fanout_event example_uuid5 example_env (Inr [''alice'', ''bob''])
        (example_event []))) = []"
  by (simp add: fanout_event_def example_env_def example_event_def resolve_target_channels_def
      List.map_filter_def jobs_for_def)

section \<open>Properties of the ingestion worker\<close>

lemma ingestion_body_returns: "fst (ingestion_body env n msg w) = False"
  by (simp add: ingestion_body_def Let_def split: option.splits prod.splits sum.splits)

lemma ingestion_body_committed: "iw_committed (snd (ingestion_body env n msg w)) = iw_committed w"
  by (simp add: ingestion_body_def Let_def split: option.splits prod.splits sum.splits)

text \<open>Whatever fails, the loop commits the offset of every message it consumes.\<close>

lemma ingestion_commits_every_offset:
  "iw_committed (consume (ingestion_body env) ingestion_commit n msgs w) =
     iw_committed w @ [n ..< n + length msgs]"
proof (induction msgs arbitrary: n w)
  case Nil
  then show ?case by simp
next
  case (Cons m msgs)
  obtain w' where b: "ingestion_body env n m w = (False, w')"
    using ingestion_body_returns [of env n m w] by (cases "ingestion_body env n m w") auto
  then have c: "iw_committed w' = iw_committed w"
    using ingestion_body_committed [of env n m w] by simp
  have "[n ..< n + length (m # msgs)] = n # [Suc n ..< Suc n + length msgs]"
    by (simp add: upt_rec)
  with b c Cons.IH [of "Suc n" "ingestion_commit n w'"] show ?case
    by (simp add: ingestion_commit_def)
qed

subsection \<open>C3: the offset of a failed message\<close>

text \<open>
  C3, at a failing input. The message \<open>m1\<close> is submitted for the conversation \<open>c1\<close>, which
  the metadata store does not hold: the sequence assignment raises (NOT_FOUND). Nothing
  is written to the log and nothing is published, and the offset 0 of the message is
  committed all the same, so the bus does not deliver it again.
\<close>

theorem ingestion_failure_is_committed:
  "ingestion_step_fails reliable_ingestion_env 0 (example_event [''delivery'']) empty_ingestion_world
   \<and> iw_committed (ingestion_run reliable_ingestion_env [Some (example_event [''delivery''])]
        empty_ingestion_world) = [0]
   \<and> iw_produced (ingestion_run reliable_ingestion_env [Some (example_event [''delivery''])]
        empty_ingestion_world) = []
   \<and> iw_messages (ingestion_run reliable_ingestion_env [Some (example_event [''delivery''])]
        empty_ingestion_world) (''c1'', 1) = None"
  by (simp add: ingestion_step_fails_def ingestion_run_def ingestion_body_def ingestion_commit_def
      get_next_sequence_def GetNextSequenceNumber_def get_or_create_sequence_def
      stored_sequences_def returning_sequences_def bump_sequence_def
      reliable_ingestion_env_def empty_ingestion_world_def empty_db_def example_event_def)

section \<open>Properties of the delivery worker\<close>

lemma process_delivery_job_raises:
  "fst (process_delivery_job env n msg w) = delivery_job_raises env n msg"
  by (auto simp: process_delivery_job_def delivery_job_raises_def Let_def
      split: option.splits sum.splits)

lemma process_delivery_job_committed:
  "dw_committed (snd (process_delivery_job env n msg w)) = dw_committed w"
  by (simp add: process_delivery_job_def Let_def split: option.splits sum.splits)

text \<open>A job whose conversion raises is not written anywhere: the callback raises at once.\<close>

lemma process_delivery_job_unconverted:
  "delivery_job_from_proto (de_json_loads env) proto = Inl e \<Longrightarrow>
     process_delivery_job env n (Some proto) w = (True, w)"
  by (simp add: process_delivery_job_def)

text \<open>
  The loop goes on after a job that raises: over any list of jobs, the offsets committed
  are those of the jobs for which the callback does not raise, in order.
\<close>

lemma delivery_run_committed:
  "dw_committed (delivery_run env n msgs w) =
     dw_committed w @
       map fst (filter (\<lambda>(i, m). \<not> delivery_job_raises env i m) (zip [n ..< n + length msgs] msgs))"
proof (induction msgs arbitrary: n w)
  case Nil
  then show ?case by (simp add: delivery_run_def)
next
  case (Cons m msgs)
  obtain r w' where cb: "process_delivery_job env n m w = (r, w')"
    by (cases "process_delivery_job env n m w")
  have r: "r = delivery_job_raises env n m"
    using process_delivery_job_raises [of env n m w] cb by simp
  have c: "dw_committed w' = dw_committed w"
    using process_delivery_job_committed [of env n m w] cb by simp
  have z: "zip [n ..< n + length (m # msgs)] (m # msgs) =
             (n, m) # zip [Suc n ..< Suc n + length msgs] msgs"
    by (simp add: upt_rec)
  show ?case
  proof (cases r)
    case True
    have "delivery_run env n (m # msgs) w = delivery_run env (Suc n) msgs w'"
      using cb True by (simp add: delivery_run_def)
    with Cons.IH [of "Suc n" w'] c r True show ?thesis
      by (simp only: z) simp
  next
    case False
    have "delivery_run env n (m # msgs) w = delivery_run env (Suc n) msgs (delivery_commit n w')"
      using cb False by (simp add: delivery_run_def)
    with Cons.IH [of "Suc n" "delivery_commit n w'"] c r False show ?thesis
      by (simp only: z) (simp add: delivery_commit_def)
  qed
qed

subsection \<open>C7: which failures skip the commit\<close>

text \<open>
  C7, at a failing input. Two jobs for bob are consumed at offsets 0 and 1; the pub/sub
  publish raises for the first (an outage) and finds a subscriber for the second. The
  inbox rows of both jobs are written. The failure of the publish is not only logged:
  the callback raises for the first job, no push notification is sent for it, and its
  commit is skipped, as after a failure of the inbox write. The loop goes on: the second
  job is published and committed. On the first job alone no offset is committed.
\<close>

theorem delivery_publish_failure_skips_commit:
  "delivery_job_raises outage_delivery_env 0 (Some (example_job ''hi''))
   \<and> length (dw_inbox (delivery_run outage_delivery_env 0 [Some (example_job ''hi'')]
        empty_delivery_world)) = 1
   \<and> dw_push (delivery_run outage_delivery_env 0 [Some (example_job ''hi'')]
        empty_delivery_world) = []
   \<and> dw_committed (delivery_run outage_delivery_env 0 [Some (example_job ''hi'')]
        empty_delivery_world) = []
   \<and> length (dw_inbox (delivery_run outage_delivery_env 0
        [Some (example_job ''hi''), Some (example_job ''again'')] empty_delivery_world)) = 2
   \<and> map fst (dw_pubsub (delivery_run outage_delivery_env 0
        [Some (example_job ''hi''), Some (example_job ''again'')] empty_delivery_world)) = [''user:bob'']
   \<and> dw_committed (delivery_run outage_delivery_env 0
        [Some (example_job ''hi''), Some (example_job ''again'')] empty_delivery_world) = [1]"
  by (simp add: delivery_job_raises_def delivery_run_def process_delivery_job_def
      delivery_job_from_proto_def message_sent_from_proto_def delivery_commit_def
      outage_delivery_env_def example_delivery_env_def empty_delivery_world_def
      example_job_def example_event_def Let_def)

subsection \<open>C8: the push notification of an offline recipient\<close>

lemma delivery_job_from_proto_fields:
  assumes "delivery_job_from_proto json_loads proto = Inr event"
  shows "recipient_id event = pb_recipient_id proto"
    and "job_conversation_id event = pb_job_conversation_id proto"
    and "job_message_id event = pb_job_message_id proto"
    and "content (payload event) = pb_content (pb_payload proto)"
    and "sender_id (payload event) = pb_sender_id (pb_payload proto)"
  using assms
  by (auto simp: delivery_job_from_proto_def message_sent_from_proto_def split: sum.splits if_splits)

text \<open>
  C8 (as amended). For a job that has converted and whose inbox write succeeds, when the
  pub/sub publish returns the subscriber count 0 and the push publish does not fail,
  exactly one push notification is sent, keyed by the recipient, with body the first 100
  characters of the content, or \<open>Novo arquivo\<close> when the content is empty, and with data
  holding the conversation-id and the message-id of the job. When the count is positive
  no push notification is sent.
\<close>

theorem push_on_zero_subscribers:
  assumes "delivery_job_from_proto (de_json_loads env) proto = Inr event"
    and "\<not> de_inbox_raises env n" and "de_publish env n = Inr c"
  shows "(c = 0 \<and> \<not> de_push_raises env n \<longrightarrow>
           dw_push (snd (process_delivery_job env n (Some proto) w)) =
             dw_push w @
               [(TOPIC_PUSH, pb_recipient_id proto,
                 \<lparr>pb_notification_id = de_uuid4 env n,
                  pb_push_user_id = pb_recipient_id proto,
                  pb_title = ''Nova mensagem de '' @ pb_sender_id (pb_payload proto),
                  pb_body = (if pb_content (pb_payload proto) = '''' then ''Novo arquivo''
                             else take 100 (pb_content (pb_payload proto))),
                  pb_data_json = de_json_dumps env
                    [(''conversation_id'', pb_job_conversation_id proto),
                     (''message_id'', pb_job_message_id proto)],
                  pb_push_timestamp = de_now env n\<rparr>)])
     \<and> (0 < c \<longrightarrow> dw_push (snd (process_delivery_job env n (Some proto) w)) = dw_push w)"
  using assms delivery_job_from_proto_fields [OF assms(1)]
  by (simp add: process_delivery_job_def Let_def push_event_of_def push_notification_to_proto_def)

text \<open>The theorem on the example job, with no subscriber and with two.\<close>

theorem push_on_zero_subscribers_witness:
  "map (\<lambda>(t, k, p). (t, k, pb_body p))
       (dw_push (snd (process_delivery_job (example_delivery_env (Some 0)) 0
          (Some (example_job ''hi'')) empty_delivery_world)))
     = [(''chat.message.notification.v1'', ''bob'', ''hi'')]
   \<and> dw_push (snd (process_delivery_job (example_delivery_env (Some 2)) 0
          (Some (example_job ''hi'')) empty_delivery_world)) = []"
proof -
  obtain event where conv:
    "delivery_job_from_proto (de_json_loads (example_delivery_env s)) (example_job ''hi'') = Inr event"
    for s
    by (simp add: delivery_job_from_proto_def message_sent_from_proto_def example_job_def
        example_event_def)
  have a: "\<not> de_inbox_raises (example_delivery_env s) 0" for s
    by (simp add: example_delivery_env_def)
  have p0: "de_publish (example_delivery_env (Some 0)) 0 = Inr 0"
    and p2: "de_publish (example_delivery_env (Some 2)) 0 = Inr 2"
    by (simp_all add: example_delivery_env_def)
  have r: "\<not> de_push_raises (example_delivery_env (Some 0)) 0"
    by (simp add: example_delivery_env_def)
  from push_on_zero_subscribers [OF conv a p0, of empty_delivery_world] r
  have "map (\<lambda>(t, k, p). (t, k, pb_body p))
       (dw_push (snd (process_delivery_job (example_delivery_env (Some 0)) 0
          (Some (example_job ''hi'')) empty_delivery_world)))
     = [(''chat.message.notification.v1'', ''bob'', ''hi'')]"
    by (simp add: example_job_def example_event_def empty_delivery_world_def TOPIC_PUSH_def)
  moreover from push_on_zero_subscribers [OF conv a p2, of empty_delivery_world]
  have "dw_push (snd (process_delivery_job (example_delivery_env (Some 2)) 0
          (Some (example_job ''hi'')) empty_delivery_world)) = []"
    by (simp add: empty_delivery_world_def)
  ultimately show ?thesis by blast
qed

text \<open>
  The claim as written fails on the text of the body: for a job with empty content and no
  subscriber, the body of the one push notification is \<open>Novo arquivo\<close>, not \<open>New file\<close>.
\<close>

theorem push_body_counterexample:
  "map (\<lambda>(t, k, p). pb_body p)
       (dw_push (snd (process_delivery_job (example_delivery_env (Some 0)) 0
          (Some (example_job '''')) empty_delivery_world)))
     = [''Novo arquivo'']
   \<and> ''Novo arquivo'' \<noteq> ''New file''"
  by (simp add: process_delivery_job_def example_delivery_env_def empty_delivery_world_def Let_def
      push_event_of_def push_notification_to_proto_def delivery_job_from_proto_def
      message_sent_from_proto_def example_job_def example_event_def)

section \<open>Properties of the status processor\<close>

subsection \<open>C5: what a status event does to the stored status\<close>

text \<open>
  C5 (as amended). Processing a status event whose write succeeds overwrites the stored
  status of the addressed row with the status of the event and leaves the status of every
  other row as it was. The stored status does not go down, and the update is the maximum
  under \<open>SENT < DELIVERED < READ\<close>, when the status of the event is not below the stored
  one, as it is when the receipts of a message are processed in the order DELIVERED, READ.
\<close>

theorem status_update_overwrites:
  assumes "\<not> se_update_raises env n"
  shows "stored_status k (process_event env n ev w) =
           (if k = (se_to_uuid env (st_conversation_id ev), st_sequence_number ev)
            then Some (st_status ev) else stored_status k w)
     \<and> (stored_status (se_to_uuid env (st_conversation_id ev), st_sequence_number ev) w = Some old
          \<and> status_rank old \<le> status_rank (st_status ev) \<longrightarrow>
        stored_status (se_to_uuid env (st_conversation_id ev), st_sequence_number ev)
           (process_event env n ev w) = Some (status_max old (st_status ev)))"
  using assms
  by (auto simp: process_event_def Let_def stored_status_def update_status_def status_max_def
      null_row_def split: option.splits)

text \<open>The theorem on the example: the row of \<open>m1\<close> is SENT, and bob's READ receipt is processed.\<close>

theorem status_update_overwrites_witness:
  "stored_status (''c1'', 1) example_status_world = Some ''SENT''
   \<and> stored_status (''c1'', 1) (process_event example_status_env 0 (example_status_event ''READ'')
        example_status_world) = Some ''READ''
   \<and> status_max ''SENT'' ''READ'' = ''READ''"
proof -
  have a: "\<not> se_update_raises example_status_env 0"
    by (simp add: example_status_env_def)
  have s: "stored_status (''c1'', 1) example_status_world = Some ''SENT''"
    by (simp add: stored_status_def example_status_world_def save_message_def example_event_def)
  have m: "status_max ''SENT'' ''READ'' = ''READ''"
    by (simp add: status_max_def status_rank_def)
  have k: "(se_to_uuid example_status_env (st_conversation_id (example_status_event ''READ'')),
            st_sequence_number (example_status_event ''READ'')) = (''c1'', 1)"
    by (simp add: example_status_env_def example_status_event_def)
  have r: "status_rank ''SENT'' \<le> status_rank (st_status (example_status_event ''READ''))"
    by (simp add: status_rank_def example_status_event_def)
  from status_update_overwrites [OF a, of "(''c1'', 1)" "example_status_event ''READ''"
      example_status_world "''SENT''"] s k r m
  have "stored_status (''c1'', 1) (process_event example_status_env 0 (example_status_event ''READ'')
        example_status_world) = Some ''READ''"
    by (simp add: example_status_event_def)
  with s m show ?thesis by blast
qed

text \<open>
  The claim as written fails when a DELIVERED receipt is processed after a READ receipt
  of the same message: the stored status goes back from READ to DELIVERED.
\<close>

theorem status_downgrade_counterexample:
  "stored_status (''c1'', 1) (process_event example_status_env 0 (example_status_event ''READ'')
        example_status_world) = Some ''READ''
   \<and> stored_status (''c1'', 1)
       (process_event example_status_env 1 (example_status_event ''DELIVERED'')
         (process_event example_status_env 0 (example_status_event ''READ'') example_status_world))
       = Some ''DELIVERED''"
  by (simp add: process_event_def Let_def stored_status_def update_status_def
      example_status_env_def example_status_event_def example_status_world_def save_message_def)

end
